theory Spec2Isabelle
  imports Complex_Main "HOL-Library.Sublist"
begin

section \<open>The task-queue client: options, composition and submission\<close>

text \<open>
  The development follows the client source (\<^verbatim>\<open>package asynq\<close>, file
  \<^verbatim>\<open>src/unnamed/part_000\<close>): the option constructors, \<^verbatim>\<open>composeOptions\<close>,
  \<^verbatim>\<open>validateTaskID\<close>, \<^verbatim>\<open>Client.Enqueue\<close>, \<^verbatim>\<open>Client.enqueue\<close> and
  \<^verbatim>\<open>Client.schedule\<close>.
\<close>

subsection \<open>Time values\<close>

text \<open>
  A \<^verbatim>\<open>time.Time\<close> is modelled by the instant it denotes, in nanoseconds since the Unix
  epoch; a \<^verbatim>\<open>time.Duration\<close> is a number of nanoseconds (an \<^verbatim>\<open>int64\<close> in Go).
  Locations and the monotonic clock reading are not modelled: \<^verbatim>\<open>Equal\<close>,
  \<^verbatim>\<open>Before\<close> and \<^verbatim>\<open>Sub\<close> compare instants.
\<close>

type_synonym Time = int
type_synonym Duration = int

definition Second :: Duration where
  "Second = 1000000000"

definition Minute :: Duration where
  "Minute = 60 * Second"

definition Hour :: Duration where
  "Hour = 60 * Minute"

definition maxDuration :: Duration where
  "maxDuration = 2 ^ 63 - 1"

definition minDuration :: Duration where
  "minDuration = - (2 ^ 63)"

text \<open>\<^verbatim>\<open>time.Time{}\<close>: January 1, year 1, 00:00:00 UTC.\<close>

definition zeroTime :: Time where
  "zeroTime = - 62135596800 * Second"

definition IsZero :: "Time \<Rightarrow> bool" where
  "IsZero t = (t = zeroTime)"

definition time_Unix :: "int \<Rightarrow> int \<Rightarrow> Time" where
  "time_Unix sec nsec = sec * Second + nsec"

text \<open>\<^verbatim>\<open>t.Unix()\<close>: whole seconds since the epoch, rounded down.\<close>

definition Unix :: "Time \<Rightarrow> int" where
  "Unix t = t div Second"

definition time_Add :: "Time \<Rightarrow> Duration \<Rightarrow> Time" where
  "time_Add t d = t + d"

text \<open>\<^verbatim>\<open>t.Sub(u)\<close> saturates at the largest and smallest \<^verbatim>\<open>Duration\<close>.\<close>

definition time_Sub :: "Time \<Rightarrow> Time \<Rightarrow> Duration" where
  "time_Sub t u =
     (let d = t - u in
      if maxDuration < d then maxDuration
      else if d < minDuration then minDuration
      else d)"

text \<open>
  \<^verbatim>\<open>int64(d.Seconds())\<close>. \<^verbatim>\<open>Seconds\<close> computes, in \<^verbatim>\<open>float64\<close>,
  \<^verbatim>\<open>float64(d / Second) + float64(d % Second) / 1e9\<close>, with Go's truncating
  division and remainder, and the conversion to \<^verbatim>\<open>int64\<close> truncates toward zero.
  A \<^verbatim>\<open>float64\<close> is modelled by the rational number it denotes; \<open>float64_round\<close> is
  the rounding of an exact result to the nearest number with a 53-bit significand, ties
  to even (the exponent range is not bounded, which no duration reaches). Whole numbers
  of seconds and nanoseconds are below \<open>2 ^ 53\<close> and convert exactly.
\<close>

fun nbits :: "nat \<Rightarrow> nat" where
  "nbits n = (if n = 0 then 0 else Suc (nbits (n div 2)))"

declare nbits.simps [simp del]

text \<open>For \<open>0 < x\<close>, the integer \<open>l\<close> with \<open>2 powi l \<le> x < 2 powi (l + 1)\<close>.\<close>

definition ilog2 :: "rat \<Rightarrow> int" where
  "ilog2 x =
     (case quotient_of x of (a, b) \<Rightarrow>
        let l = int (nbits (nat a)) - int (nbits (nat b))
        in if 2 powi l \<le> x then l else l - 1)"

text \<open>The nearest integer, ties to even.\<close>

definition roundEven :: "rat \<Rightarrow> int" where
  "roundEven y =
     (let f = \<lfloor>y\<rfloor>; r = y - of_int f
      in if 2 * r < 1 then f else if 1 < 2 * r then f + 1
         else if even f then f else f + 1)"

definition float64_round :: "rat \<Rightarrow> rat" where
  "float64_round x =
     (let e = ilog2 \<bar>x\<bar> - 52 in of_int (roundEven (x / 2 powi e)) * 2 powi e)"

text \<open>Go's \<^verbatim>\<open>/\<close> and \<^verbatim>\<open>%\<close> on integers truncate toward zero.\<close>

definition tquo :: "int \<Rightarrow> int \<Rightarrow> int" where
  "tquo a b = sgn a * sgn b * (\<bar>a\<bar> div \<bar>b\<bar>)"

definition trem :: "int \<Rightarrow> int \<Rightarrow> int" where
  "trem a b = sgn a * (\<bar>a\<bar> mod \<bar>b\<bar>)"

definition Seconds :: "Duration \<Rightarrow> rat" where
  "Seconds d =
     (let sec = tquo d Second; nsec = trem d Second
      in float64_round (of_int sec + float64_round (of_int nsec / 1000000000)))"

definition int64_of_float64 :: "rat \<Rightarrow> int" where
  "int64_of_float64 x = (if x < 0 then - \<lfloor>- x\<rfloor> else \<lfloor>x\<rfloor>)"

definition Seconds_int64 :: "Duration \<Rightarrow> int" where
  "Seconds_int64 d = int64_of_float64 (Seconds d)"

subsection \<open>Strings and \<^verbatim>\<open>strings.TrimSpace\<close>\<close>

text \<open>
  A Go string is a byte sequence, here a \<^typ>\<open>string\<close>. \<^verbatim>\<open>strings.TrimSpace\<close> removes
  leading and trailing runes with the Unicode White_Space property; \<open>spaceRunes\<close> lists the
  UTF-8 encodings of these runes (tab, line feed, vertical tab, form feed, carriage
  return, space, U+0085, U+00A0, U+1680, U+2000 to U+200A, U+2028, U+2029, U+202F,
  U+205F, U+3000).
\<close>

definition spaceRunes :: "string list" where
  "spaceRunes =
     [[CHR 0x09], [CHR 0x0A], [CHR 0x0B], [CHR 0x0C], [CHR 0x0D], [CHR 0x20],
      [CHR 0xC2, CHR 0x85], [CHR 0xC2, CHR 0xA0],
      [CHR 0xE1, CHR 0x9A, CHR 0x80],
      [CHR 0xE2, CHR 0x80, CHR 0x80], [CHR 0xE2, CHR 0x80, CHR 0x81],
      [CHR 0xE2, CHR 0x80, CHR 0x82], [CHR 0xE2, CHR 0x80, CHR 0x83],
      [CHR 0xE2, CHR 0x80, CHR 0x84], [CHR 0xE2, CHR 0x80, CHR 0x85],
      [CHR 0xE2, CHR 0x80, CHR 0x86], [CHR 0xE2, CHR 0x80, CHR 0x87],
      [CHR 0xE2, CHR 0x80, CHR 0x88], [CHR 0xE2, CHR 0x80, CHR 0x89],
      [CHR 0xE2, CHR 0x80, CHR 0x8A],
      [CHR 0xE2, CHR 0x80, CHR 0xA8], [CHR 0xE2, CHR 0x80, CHR 0xA9],
      [CHR 0xE2, CHR 0x80, CHR 0xAF],
      [CHR 0xE2, CHR 0x81, CHR 0x9F],
      [CHR 0xE3, CHR 0x80, CHR 0x80]]"

function TrimLeftSpace :: "string \<Rightarrow> string" where
  "TrimLeftSpace s =
     (case find (\<lambda>e. prefix e s) spaceRunes of
        None \<Rightarrow> s
      | Some e \<Rightarrow> TrimLeftSpace (drop (length e) s))"
  by pat_completeness auto
termination
proof (relation "measure length")
  show "wf (measure length)" by simp
next
  fix s e :: string
  assume "find (\<lambda>e. prefix e s) spaceRunes = Some e"
  then have "e \<in> set spaceRunes" and "prefix e s"
    by (auto simp: find_Some_iff)
  then have "e \<noteq> []" and "length e \<le> length s"
    by (auto simp: spaceRunes_def prefix_length_le)
  then show "(drop (length e) s, s) \<in> measure length"
    by (cases e) auto
qed

function TrimRightSpace :: "string \<Rightarrow> string" where
  "TrimRightSpace s =
     (case find (\<lambda>e. suffix e s) spaceRunes of
        None \<Rightarrow> s
      | Some e \<Rightarrow> TrimRightSpace (take (length s - length e) s))"
  by pat_completeness auto
termination
proof (relation "measure length")
  show "wf (measure length)" by simp
next
  fix s e :: string
  assume "find (\<lambda>e. suffix e s) spaceRunes = Some e"
  then have "e \<in> set spaceRunes" and "suffix e s"
    by (auto simp: find_Some_iff)
  then have "e \<noteq> []" and "length e \<le> length s"
    by (auto simp: spaceRunes_def suffix_length_le)
  then show "(take (length s - length e) s, s) \<in> measure length"
    by (cases e) auto
qed

declare TrimLeftSpace.simps [simp del]
declare TrimRightSpace.simps [simp del]

definition TrimSpace :: "string \<Rightarrow> string" where
  "TrimSpace s = TrimRightSpace (TrimLeftSpace s)"

subsection \<open>Errors\<close>

text \<open>
  Go errors are compared by identity. The two sentinels of the internal \<^verbatim>\<open>errors\<close>
  package that the backing store reports, and the two public sentinels declared in the
  client, are constructors of their own; \<open>errorString\<close> is an error made by
  \<^verbatim>\<open>errors.New\<close> or by \<^verbatim>\<open>fmt.Errorf\<close> without \<^verbatim>\<open>%w\<close>, and \<open>wrapError\<close> is
  an error that wraps another one (as \<^verbatim>\<open>fmt.Errorf("%w", e)\<close> does).
\<close>

datatype error =
    errors_ErrDuplicateTask
  | errors_ErrTaskIdConflict
  | ErrDuplicateTask
  | ErrTaskIDConflict
  | errorString string
  | wrapError string error

text \<open>\<^verbatim>\<open>errors.Is\<close> on an error that may be \<^verbatim>\<open>nil\<close>: follows the chain of wrapped errors.\<close>

fun chain_Is :: "error \<Rightarrow> error \<Rightarrow> bool" where
  "chain_Is (wrapError m e) target = (wrapError m e = target \<or> chain_Is e target)"
| "chain_Is e target = (e = target)"

definition errors_Is :: "error option \<Rightarrow> error \<Rightarrow> bool" where
  "errors_Is err target = (case err of None \<Rightarrow> False | Some e \<Rightarrow> chain_Is e target)"

text \<open>\<^verbatim>\<open>fmt.Errorf("%w", e)\<close> for the two public sentinels, whose messages the source gives.\<close>

fun Error_msg :: "error \<Rightarrow> string" where
  "Error_msg errors_ErrDuplicateTask = ''task already exists''"
| "Error_msg errors_ErrTaskIdConflict = ''task ID conflicts with another task''"
| "Error_msg ErrDuplicateTask = ''task already exists''"
| "Error_msg ErrTaskIDConflict = ''task ID conflicts with another task''"
| "Error_msg (errorString m) = m"
| "Error_msg (wrapError m e) = m"

definition Errorf_w :: "error \<Rightarrow> error" where
  "Errorf_w e = wrapError (Error_msg e) e"

subsection \<open>Options\<close>

text \<open>
  \<^verbatim>\<open>Option\<close> is an interface; the nine internal representations are the constructors,
  and \<open>foreignOption\<close> stands for any other implementation (the \<^verbatim>\<open>default\<close> branch of
  the type switch).
\<close>

datatype Option =
    retryOption int
  | queueOption string
  | taskIDOption string
  | timeoutOption Duration
  | deadlineOption Time
  | uniqueOption Duration
  | processAtOption Time
  | processInOption Duration
  | retentionOption Duration
  | foreignOption

definition MaxRetry :: "int \<Rightarrow> Option" where
  "MaxRetry n = retryOption (if n < 0 then 0 else n)"

definition Queue :: "string \<Rightarrow> Option" where
  "Queue qname = queueOption qname"

definition TaskID :: "string \<Rightarrow> Option" where
  "TaskID tid = taskIDOption tid"

definition Timeout :: "Duration \<Rightarrow> Option" where
  "Timeout d = timeoutOption d"

definition Deadline :: "Time \<Rightarrow> Option" where
  "Deadline t = deadlineOption t"

definition Unique :: "Duration \<Rightarrow> Option" where
  "Unique ttl = uniqueOption ttl"

definition ProcessAt :: "Time \<Rightarrow> Option" where
  "ProcessAt t = processAtOption t"

definition ProcessIn :: "Duration \<Rightarrow> Option" where
  "ProcessIn d = processInOption d"

definition Retention :: "Duration \<Rightarrow> Option" where
  "Retention d = retentionOption d"

record option_t =
  retry :: int
  queue :: string
  taskID :: string
  timeout :: Duration
  deadline :: Time
  uniqueTTL :: Duration
  processAt :: Time
  retention :: Duration

text \<open>\<^verbatim>\<open>option{}\<close>, the zero value returned beside a validation error.\<close>

definition option_zero :: option_t where
  "option_zero =
     \<lparr>retry = 0, queue = [], taskID = [], timeout = 0, deadline = zeroTime,
      uniqueTTL = 0, processAt = zeroTime, retention = 0\<rparr>"

definition defaultMaxRetry :: int where
  "defaultMaxRetry = 25"

definition defaultTimeout :: Duration where
  "defaultTimeout = 30 * Minute"

definition noTimeout :: Duration where
  "noTimeout = 0"

definition noDeadline :: Time where
  "noDeadline = time_Unix 0 0"

subsection \<open>Package \<^verbatim>\<open>base\<close>\<close>

text \<open>
  Modelled from the spec: \<^verbatim>\<open>base.DefaultQueueName\<close> is declared outside the sources;
  the spec's example gives the queue of a submission without options as "default".
\<close>

definition DefaultQueueName :: string where
  "DefaultQueueName = ''default''"

text \<open>
  Modelled from the spec: \<^verbatim>\<open>base.UniqueKey\<close> is declared outside the sources. The
  spec describes it as a deterministic fingerprint of (queue, type, payload) and of
  nothing else, such that a different payload gives a different key. The model joins
  the three components.
\<close>

definition UniqueKey :: "string \<Rightarrow> string \<Rightarrow> string \<Rightarrow> string" where
  "UniqueKey qname tasktype payload = qname @ '':'' @ tasktype @ '':'' @ payload"

text \<open>
  \<^verbatim>\<open>base.TaskMessage\<close>, with the fields that \<^verbatim>\<open>Enqueue\<close> sets (the others keep
  their zero value).
\<close>

record TaskMessage =
  msg_ID :: string
  msg_Type :: string
  msg_Payload :: string
  msg_Queue :: string
  msg_Retry :: int
  msg_Deadline :: int
  msg_Timeout :: int
  msg_UniqueKey :: string
  msg_Retention :: int

datatype TaskState = TaskStatePending | TaskStateScheduled

subsection \<open>The world outside the client\<close>

text \<open>
  The calls on the backing store (\<^verbatim>\<open>rdb.RDB\<close>) that the client makes.
\<close>

datatype rdb_op =
    rdb_Enqueue TaskMessage
  | rdb_EnqueueUnique TaskMessage Duration
  | rdb_Schedule TaskMessage Time
  | rdb_ScheduleUnique TaskMessage Time Duration

text \<open>
  The state threaded through a call: the successive readings of \<^verbatim>\<open>time.Now()\<close> and
  of \<^verbatim>\<open>uuid.NewString()\<close> with the number of readings taken so far, the answer of the
  backing store to an operation after a given history of operations, and that history.
\<close>

record world =
  now_readings :: "nat \<Rightarrow> Time"
  now_count :: nat
  uuid_readings :: "nat \<Rightarrow> string"
  uuid_count :: nat
  rdb_reply :: "rdb_op list \<Rightarrow> rdb_op \<Rightarrow> error option"
  rdb_log :: "rdb_op list"

definition time_Now :: "world \<Rightarrow> Time \<times> world" where
  "time_Now w = (now_readings w (now_count w), w\<lparr>now_count := Suc (now_count w)\<rparr>)"

definition uuid_NewString :: "world \<Rightarrow> string \<times> world" where
  "uuid_NewString w = (uuid_readings w (uuid_count w), w\<lparr>uuid_count := Suc (uuid_count w)\<rparr>)"

definition rdb_do :: "rdb_op \<Rightarrow> world \<Rightarrow> error option \<times> world" where
  "rdb_do c w = (rdb_reply w (rdb_log w) c, w\<lparr>rdb_log := rdb_log w @ [c]\<rparr>)"

subsection \<open>Composing options\<close>

definition validateTaskID :: "string \<Rightarrow> error option" where
  "validateTaskID tid =
     (if TrimSpace tid = [] then Some (errorString ''task ID cannot be empty'') else None)"

text \<open>
  The loop of \<^verbatim>\<open>composeOptions\<close> over the options; \<open>vq\<close> is
  \<^verbatim>\<open>base.ValidateQueueName\<close>, which is declared outside the sources.
\<close>

fun composeLoop ::
  "(string \<Rightarrow> error option) \<Rightarrow> Option list \<Rightarrow> option_t \<Rightarrow> world
     \<Rightarrow> (option_t \<times> error option) \<times> world" where
  "composeLoop vq [] res w = ((res, None), w)"
| "composeLoop vq (retryOption n # opts) res w =
     composeLoop vq opts (res\<lparr>retry := n\<rparr>) w"
| "composeLoop vq (queueOption qname # opts) res w =
     (case vq qname of
        Some err \<Rightarrow> ((option_zero, Some err), w)
      | None \<Rightarrow> composeLoop vq opts (res\<lparr>queue := qname\<rparr>) w)"
| "composeLoop vq (taskIDOption tid # opts) res w =
     (case validateTaskID tid of
        Some err \<Rightarrow> ((option_zero, Some err), w)
      | None \<Rightarrow> composeLoop vq opts (res\<lparr>taskID := tid\<rparr>) w)"
| "composeLoop vq (timeoutOption d # opts) res w =
     composeLoop vq opts (res\<lparr>timeout := d\<rparr>) w"
| "composeLoop vq (deadlineOption t # opts) res w =
     composeLoop vq opts (res\<lparr>deadline := t\<rparr>) w"
| "composeLoop vq (uniqueOption d # opts) res w =
     composeLoop vq opts (res\<lparr>uniqueTTL := d\<rparr>) w"
| "composeLoop vq (processAtOption t # opts) res w =
     composeLoop vq opts (res\<lparr>processAt := t\<rparr>) w"
| "composeLoop vq (processInOption d # opts) res w =
     (case time_Now w of
        (now, w') \<Rightarrow> composeLoop vq opts (res\<lparr>processAt := time_Add now d\<rparr>) w')"
| "composeLoop vq (retentionOption d # opts) res w =
     composeLoop vq opts (res\<lparr>retention := d\<rparr>) w"
| "composeLoop vq (foreignOption # opts) res w =
     composeLoop vq opts res w"

definition composeOptions ::
  "(string \<Rightarrow> error option) \<Rightarrow> Option list \<Rightarrow> world
     \<Rightarrow> (option_t \<times> error option) \<times> world" where
  "composeOptions vq opts w =
     (case uuid_NewString w of (tid, w1) \<Rightarrow>
      case time_Now w1 of (now, w2) \<Rightarrow>
        composeLoop vq opts
          \<lparr>retry = defaultMaxRetry, queue = DefaultQueueName, taskID = tid,
           timeout = 0, deadline = zeroTime, uniqueTTL = 0, processAt = now,
           retention = 0\<rparr> w2)"

subsection \<open>Submitting a task\<close>

record Task =
  typename :: string
  payload :: string
  task_opts :: "Option list"

text \<open>
  Modelled from the spec: \<^verbatim>\<open>TaskInfo\<close> and \<^verbatim>\<open>newTaskInfo\<close> are declared outside
  the sources; the spec describes the result of a submission as the record, the
  lifecycle state and the resolved time of processing.
\<close>

record TaskInfo =
  info_msg :: TaskMessage
  info_state :: TaskState
  info_nextProcessAt :: Time

definition newTaskInfo :: "TaskMessage \<Rightarrow> TaskState \<Rightarrow> Time \<Rightarrow> TaskInfo" where
  "newTaskInfo msg state nextProcessAt =
     \<lparr>info_msg = msg, info_state = state, info_nextProcessAt = nextProcessAt\<rparr>"

definition enqueue :: "TaskMessage \<Rightarrow> Duration \<Rightarrow> world \<Rightarrow> error option \<times> world" where
  "enqueue msg ttl w =
     (if 0 < ttl then rdb_do (rdb_EnqueueUnique msg ttl) w
      else rdb_do (rdb_Enqueue msg) w)"

definition schedule ::
  "TaskMessage \<Rightarrow> Time \<Rightarrow> Duration \<Rightarrow> world \<Rightarrow> error option \<times> world" where
  "schedule msg t ttl0 w =
     (if 0 < ttl0 then
        (case time_Now w of (now, w') \<Rightarrow>
           rdb_do (rdb_ScheduleUnique msg t (time_Sub (time_Add t ttl0) now)) w')
      else rdb_do (rdb_Schedule msg t) w)"

definition Enqueue ::
  "(string \<Rightarrow> error option) \<Rightarrow> Task \<Rightarrow> Option list \<Rightarrow> world
     \<Rightarrow> (error + TaskInfo) \<times> world" where
  "Enqueue vq task opts w =
     (if TrimSpace (typename task) = [] then
        (Inl (errorString ''task typename cannot be empty''), w)
      else
        case composeOptions vq (task_opts task @ opts) w of ((opt, cerr), w1) \<Rightarrow>
        case cerr of
          Some e \<Rightarrow> (Inl e, w1)
        | None \<Rightarrow>
           let deadline' = (if \<not> IsZero (deadline opt) then deadline opt else noDeadline);
               timeout' = (if timeout opt \<noteq> 0 then timeout opt else noTimeout);
               timeout'' = (if deadline' = noDeadline \<and> timeout' = noTimeout
                            then defaultTimeout else timeout');
               uniqueKey = (if 0 < uniqueTTL opt
                            then UniqueKey (queue opt) (typename task) (payload task)
                            else []);
               msg = \<lparr>msg_ID = taskID opt, msg_Type = typename task,
                      msg_Payload = payload task, msg_Queue = queue opt,
                      msg_Retry = retry opt, msg_Deadline = Unix deadline',
                      msg_Timeout = Seconds_int64 timeout'', msg_UniqueKey = uniqueKey,
                      msg_Retention = Seconds_int64 (retention opt)\<rparr>
           in
           case time_Now w1 of (now, w2) \<Rightarrow>
           case (if processAt opt \<le> now
                 then (case enqueue msg (uniqueTTL opt) w2 of
                         (err, w3) \<Rightarrow> (now, err, TaskStatePending, w3))
                 else (case schedule msg (processAt opt) (uniqueTTL opt) w2 of
                         (err, w3) \<Rightarrow> (processAt opt, err, TaskStateScheduled, w3)))
           of (processAt', err, state, w3) \<Rightarrow>
             if errors_Is err errors_ErrDuplicateTask then
               (Inl (Errorf_w ErrDuplicateTask), w3)
             else if errors_Is err errors_ErrTaskIdConflict then
               (Inl (Errorf_w ErrTaskIDConflict), w3)
             else (case err of
                     Some e \<Rightarrow> (Inl e, w3)
                   | None \<Rightarrow> (Inr (newTaskInfo msg state processAt'), w3)))"

subsection \<open>Notions used to state the properties\<close>

text \<open>
  The validation outcome of a single option, and the first failure in a sequence of
  options.
\<close>

fun optionError :: "(string \<Rightarrow> error option) \<Rightarrow> Option \<Rightarrow> error option" where
  "optionError vq (queueOption qname) = vq qname"
| "optionError vq (taskIDOption tid) = validateTaskID tid"
| "optionError vq _ = None"

fun firstError :: "(string \<Rightarrow> error option) \<Rightarrow> Option list \<Rightarrow> error option" where
  "firstError vq [] = None"
| "firstError vq (x # xs) =
     (case optionError vq x of Some e \<Rightarrow> Some e | None \<Rightarrow> firstError vq xs)"

text \<open>
  Last one wins: \<open>lastOf f xs\<close> is the value \<open>f\<close> gives for the last element of
  \<open>xs\<close> on which \<open>f\<close> is defined.
\<close>

fun lastOf :: "('a \<Rightarrow> 'b option) \<Rightarrow> 'a list \<Rightarrow> 'b option" where
  "lastOf f [] = None"
| "lastOf f (x # xs) = (case lastOf f xs of Some v \<Rightarrow> Some v | None \<Rightarrow> f x)"

fun retry_of :: "Option \<Rightarrow> int option" where
  "retry_of (retryOption n) = Some n"
| "retry_of _ = None"

fun queue_of :: "Option \<Rightarrow> string option" where
  "queue_of (queueOption q) = Some q"
| "queue_of _ = None"

fun taskID_of :: "Option \<Rightarrow> string option" where
  "taskID_of (taskIDOption i) = Some i"
| "taskID_of _ = None"

fun timeout_of :: "Option \<Rightarrow> Duration option" where
  "timeout_of (timeoutOption d) = Some d"
| "timeout_of _ = None"

fun deadline_of :: "Option \<Rightarrow> Time option" where
  "deadline_of (deadlineOption t) = Some t"
| "deadline_of _ = None"

fun unique_of :: "Option \<Rightarrow> Duration option" where
  "unique_of (uniqueOption d) = Some d"
| "unique_of _ = None"

fun retention_of :: "Option \<Rightarrow> Duration option" where
  "retention_of (retentionOption d) = Some d"
| "retention_of _ = None"

text \<open>
  The scheduled time given by the last scheduled-at or scheduled-in option, when the
  clock readings are \<open>clk\<close> and the next reading is the \<open>k\<close>-th: a scheduled-in
  option takes one reading and adds its duration.
\<close>

fun lastSched :: "(nat \<Rightarrow> Time) \<Rightarrow> nat \<Rightarrow> Option list \<Rightarrow> Time option" where
  "lastSched clk k [] = None"
| "lastSched clk k (processAtOption t # xs) =
     (case lastSched clk k xs of Some v \<Rightarrow> Some v | None \<Rightarrow> Some t)"
| "lastSched clk k (processInOption d # xs) =
     (case lastSched clk (Suc k) xs of Some v \<Rightarrow> Some v | None \<Rightarrow> Some (clk k + d))"
| "lastSched clk k (x # xs) = lastSched clk k xs"

fun isProcessIn :: "Option \<Rightarrow> bool" where
  "isProcessIn (processInOption d) = True"
| "isProcessIn _ = False"

text \<open>The message and the uniqueness guard carried by an operation on the store.\<close>

fun op_msg :: "rdb_op \<Rightarrow> TaskMessage" where
  "op_msg (rdb_Enqueue m) = m"
| "op_msg (rdb_EnqueueUnique m ttl) = m"
| "op_msg (rdb_Schedule m t) = m"
| "op_msg (rdb_ScheduleUnique m t ttl) = m"

fun op_ttl :: "rdb_op \<Rightarrow> Duration option" where
  "op_ttl (rdb_Enqueue m) = None"
| "op_ttl (rdb_EnqueueUnique m ttl) = Some ttl"
| "op_ttl (rdb_Schedule m t) = None"
| "op_ttl (rdb_ScheduleUnique m t ttl) = Some ttl"

fun op_immediate :: "rdb_op \<Rightarrow> bool" where
  "op_immediate (rdb_Enqueue m) = True"
| "op_immediate (rdb_EnqueueUnique m ttl) = True"
| "op_immediate (rdb_Schedule m t) = False"
| "op_immediate (rdb_ScheduleUnique m t ttl) = False"

fun op_unique :: "rdb_op \<Rightarrow> bool" where
  "op_unique (rdb_Enqueue m) = False"
| "op_unique (rdb_EnqueueUnique m ttl) = True"
| "op_unique (rdb_Schedule m t) = False"
| "op_unique (rdb_ScheduleUnique m t ttl) = True"

text \<open>
  The three stages of \<open>Enqueue\<close> after a successful composition, named so that its
  result can be written in one line: the message built from the resolved options, the
  operation chosen for the clock readings \<open>now\<close> (routing) and \<open>now'\<close> (inside
  \<^verbatim>\<open>schedule\<close>), and the result returned for the store's answer.
\<close>

definition messageOf :: "Task \<Rightarrow> option_t \<Rightarrow> TaskMessage" where
  "messageOf task opt =
     (let deadline' = (if \<not> IsZero (deadline opt) then deadline opt else noDeadline);
          timeout' = (if timeout opt \<noteq> 0 then timeout opt else noTimeout);
          timeout'' = (if deadline' = noDeadline \<and> timeout' = noTimeout
                       then defaultTimeout else timeout');
          uniqueKey = (if 0 < uniqueTTL opt
                       then UniqueKey (queue opt) (typename task) (payload task)
                       else [])
      in \<lparr>msg_ID = taskID opt, msg_Type = typename task,
          msg_Payload = payload task, msg_Queue = queue opt,
          msg_Retry = retry opt, msg_Deadline = Unix deadline',
          msg_Timeout = Seconds_int64 timeout'', msg_UniqueKey = uniqueKey,
          msg_Retention = Seconds_int64 (retention opt)\<rparr>)"

definition operationOf :: "TaskMessage \<Rightarrow> option_t \<Rightarrow> Time \<Rightarrow> Time \<Rightarrow> rdb_op" where
  "operationOf m opt now now' =
     (if processAt opt \<le> now then
        (if 0 < uniqueTTL opt then rdb_EnqueueUnique m (uniqueTTL opt) else rdb_Enqueue m)
      else
        (if 0 < uniqueTTL opt
         then rdb_ScheduleUnique m (processAt opt)
                (time_Sub (time_Add (processAt opt) (uniqueTTL opt)) now')
         else rdb_Schedule m (processAt opt)))"

definition resultOf :: "error option \<Rightarrow> TaskInfo \<Rightarrow> error + TaskInfo" where
  "resultOf err info =
     (if errors_Is err errors_ErrDuplicateTask then Inl (Errorf_w ErrDuplicateTask)
      else if errors_Is err errors_ErrTaskIdConflict then Inl (Errorf_w ErrTaskIDConflict)
      else case err of Some e \<Rightarrow> Inl e | None \<Rightarrow> Inr info)"

subsection \<open>Example inputs\<close>

text \<open>
  A queue-name validation that rejects blank names, a clock that advances by one
  microsecond at every reading, and a backing store that accepts every operation.
\<close>

definition sampleValidateQueueName :: "string \<Rightarrow> error option" where
  "sampleValidateQueueName qname =
     (if TrimSpace qname = []
      then Some (errorString ''queue name must contain one or more characters'')
      else None)"

definition sampleWorld :: world where
  "sampleWorld =
     \<lparr>now_readings = (\<lambda>n. 1700000000 * Second + int n * 1000), now_count = 0,
      uuid_readings = (\<lambda>n. ''6ba7b810-9dad-11d1-80b4-00c04fd430c8''), uuid_count = 0,
      rdb_reply = (\<lambda>h c. None), rdb_log = []\<rparr>"

definition sampleTask :: Task where
  "sampleTask = \<lparr>typename = ''email:welcome'', payload = ''{\"user\":42}'', task_opts = []\<rparr>"

definition frozenWorld :: world where
  "frozenWorld = sampleWorld\<lparr>now_readings := (\<lambda>n. 1700000000 * Second)\<rparr>"

definition duplicateWorld :: world where
  "duplicateWorld =
     sampleWorld\<lparr>rdb_reply :=
       (\<lambda>h c. Some (wrapError ''rdb.EnqueueUnique'' errors_ErrDuplicateTask))\<rparr>"

section \<open>Properties\<close>

subsection \<open>The conversion to seconds\<close>

lemma nbits_bounds: "0 < n \<longrightarrow> 2 ^ (nbits n - 1) \<le> n \<and> n < 2 ^ nbits n"
proof (induction n rule: nbits.induct)
  case (1 n)
  show ?case
  proof
    assume pos: "0 < n"
    then have nb: "nbits n = Suc (nbits (n div 2))"
      by (simp add: nbits.simps [of n])
    show "2 ^ (nbits n - 1) \<le> n \<and> n < 2 ^ nbits n"
    proof (cases "n div 2 = 0")
      case True
      with pos have "n = 1" by (simp add: div_eq_0_iff)
      then show ?thesis by (simp add: nbits.simps)
    next
      case False
      then have "0 < n div 2" by simp
      with "1.IH" pos have IH: "2 ^ (nbits (n div 2) - 1) \<le> n div 2"
        "n div 2 < 2 ^ nbits (n div 2)"
        by simp_all
      have k: "0 < nbits (n div 2)"
        using False by (simp add: nbits.simps [of "n div 2"])
      then have "(2::nat) ^ nbits (n div 2) = 2 * 2 ^ (nbits (n div 2) - 1)"
        by (cases "nbits (n div 2)") simp_all
      with IH(1) have "2 ^ nbits (n div 2) \<le> n" by linarith
      moreover from IH(2) have "n < 2 * 2 ^ nbits (n div 2)" by linarith
      ultimately show ?thesis by (simp add: nb)
    qed
  qed
qed

lemma nbits_pos: "0 < n \<Longrightarrow> 0 < nbits n"
  by (simp add: nbits.simps [of n])

lemma ilog2_bounds:
  assumes "0 < x"
  shows "2 powi ilog2 x \<le> x" and "x < 2 powi (ilog2 x + 1)"
proof -
  obtain a b where q: "quotient_of x = (a, b)" by (cases "quotient_of x")
  then have b: "0 < b" and x: "x = of_int a / of_int b"
    by (simp_all add: quotient_of_denom_pos quotient_of_div)
  with assms have a: "0 < a"
    by (simp add: zero_less_divide_iff)
  define na nb where "na = nbits (nat a)" and "nb = nbits (nat b)"
  define l where "l = int na - int nb"
  have na: "0 < na" and nb: "0 < nb"
    using a b by (simp_all add: na_def nb_def nbits_pos)
  have "2 ^ (na - 1) \<le> nat a" "nat a < 2 ^ na" "2 ^ (nb - 1) \<le> nat b" "nat b < 2 ^ nb"
    using nbits_bounds [of "nat a"] nbits_bounds [of "nat b"] a b
    by (simp_all add: na_def nb_def)
  then have i: "2 ^ (na - 1) \<le> a" "a < 2 ^ na" "2 ^ (nb - 1) \<le> b" "b < 2 ^ nb"
    using a b by (simp_all add: nat_le_iff nat_less_iff le_nat_iff)
  have A: "(2::rat) powi (int na - 1) \<le> of_int a" "(of_int a :: rat) < 2 powi int na"
    and B: "(2::rat) powi (int nb - 1) \<le> of_int b" "(of_int b :: rat) < 2 powi int nb"
  proof -
    have e: "int na - 1 = int (na - 1)" "int nb - 1 = int (nb - 1)"
      using na nb by simp_all
    have "(of_int (2 ^ (na - 1)) :: rat) \<le> of_int a" "(of_int a :: rat) < of_int (2 ^ na)"
      "(of_int (2 ^ (nb - 1)) :: rat) \<le> of_int b" "(of_int b :: rat) < of_int (2 ^ nb)"
      using i by (simp_all only: of_int_le_iff of_int_less_iff)
    then show "(2::rat) powi (int na - 1) \<le> of_int a" "(of_int a :: rat) < 2 powi int na"
      "(2::rat) powi (int nb - 1) \<le> of_int b" "(of_int b :: rat) < 2 powi int nb"
      unfolding e by simp_all
  qed
  have up: "x < 2 powi (l + 1)"
  proof -
    have "of_int a / of_int b < (2::rat) powi int na / 2 powi (int nb - 1)"
      using A(2) B(1) a b by (intro frac_less) simp_all
    also have "\<dots> = 2 powi (int na - (int nb - 1))"
      by (simp add: power_int_diff)
    finally show ?thesis by (simp add: x l_def algebra_simps)
  qed
  have lo: "2 powi (l - 1) < x"
  proof -
    have "(2::rat) powi (int na - 1) / 2 powi int nb < of_int a / of_int b"
      using A(1) B(2) a b by (intro frac_less2) simp_all
    moreover have "(2::rat) powi (int na - 1) / 2 powi int nb = 2 powi (int na - 1 - int nb)"
      by (simp add: power_int_diff)
    ultimately show ?thesis by (simp add: x l_def algebra_simps)
  qed
  have il: "ilog2 x = (if 2 powi l \<le> x then l else l - 1)"
    by (simp add: ilog2_def q na_def nb_def l_def Let_def)
  show "2 powi ilog2 x \<le> x"
    using lo by (simp add: il)
  show "x < 2 powi (ilog2 x + 1)"
    using up by (auto simp: il not_le)
qed

lemma ilog2_less:
  assumes "0 < x" and "x < 2 powi k"
  shows "ilog2 x < k"
proof (rule ccontr)
  assume "\<not> ilog2 x < k"
  then have "(2::rat) powi k \<le> 2 powi ilog2 x"
    by (intro power_int_increasing) simp_all
  with ilog2_bounds(1) [OF assms(1)] assms(2) show False by simp
qed

lemma roundEven_near: "\<bar>of_int (roundEven y) - y\<bar> \<le> 1 / 2"
proof -
  have "of_int \<lfloor>y\<rfloor> \<le> y" "y < of_int \<lfloor>y\<rfloor> + 1"
    by linarith+
  then show ?thesis
    by (auto simp: roundEven_def Let_def)
qed

lemma roundEven_ge: "of_int n \<le> y \<Longrightarrow> n \<le> roundEven y"
proof -
  assume "of_int n \<le> y"
  then have "n \<le> \<lfloor>y\<rfloor>" by (simp add: le_floor_iff)
  then show ?thesis by (auto simp: roundEven_def Let_def)
qed

lemma roundEven_of_int [simp]: "roundEven (of_int n) = n"
  by (simp add: roundEven_def)

lemma roundEven_0 [simp]: "roundEven 0 = 0"
  by (simp add: roundEven_def)

lemma roundEven_minus: "roundEven (- y) = - roundEven y"
proof (cases "y = of_int \<lfloor>y\<rfloor>")
  case True
  then obtain n where "y = of_int n" ..
  then have "- y = of_int (- n)" by simp
  with \<open>y = of_int n\<close> show ?thesis
    by (simp only: roundEven_of_int)
next
  case False
  then have f: "\<lfloor>- y\<rfloor> = - \<lfloor>y\<rfloor> - 1"
    by (simp add: floor_minus ceiling_altdef)
  have "of_int \<lfloor>y\<rfloor> \<le> y" "y < of_int \<lfloor>y\<rfloor> + 1"
    by linarith+
  with False show ?thesis
    unfolding roundEven_def Let_def f
    by (auto simp: algebra_simps)
qed

lemma float64_round_0 [simp]: "float64_round 0 = 0"
  by (simp add: float64_round_def)

lemma float64_round_minus: "float64_round (- x) = - float64_round x"
  by (simp add: float64_round_def Let_def roundEven_minus)

lemma float64_round_near:
  assumes "0 < x"
  shows "\<bar>float64_round x - x\<bar> \<le> 2 powi (ilog2 x - 53)"
proof -
  define e where "e = ilog2 x - 52"
  define P :: rat where "P = 2 powi e"
  have P: "0 < P" by (simp add: P_def)
  have fr: "float64_round x = of_int (roundEven (x / P)) * P"
    using assms by (simp add: float64_round_def Let_def e_def P_def)
  have "float64_round x - x = (of_int (roundEven (x / P)) - x / P) * P"
    using P by (simp add: fr algebra_simps)
  then have "\<bar>float64_round x - x\<bar> = \<bar>of_int (roundEven (x / P)) - x / P\<bar> * P"
    using P by (simp add: abs_mult)
  also have "\<dots> \<le> 1 / 2 * P"
    using roundEven_near [of "x / P"] P by (intro mult_right_mono) simp_all
  also have "1 / 2 * P = 2 powi (ilog2 x - 53)"
  proof -
    have "(2::rat) powi (ilog2 x - 52) = 2 powi (ilog2 x - 53 + 1)" by simp
    also have "\<dots> = 2 powi (ilog2 x - 53) * 2"
      by (subst power_int_add) simp_all
    finally show ?thesis by (simp add: P_def e_def)
  qed
  finally show ?thesis .
qed

lemma float64_round_ge:
  assumes "0 < x" and "ilog2 x \<le> 52" and "of_int n \<le> x"
  shows "of_int n \<le> float64_round x"
proof -
  define k where "k = nat (52 - ilog2 x)"
  have e: "ilog2 x - 52 = - int k"
    using assms(2) by (simp add: k_def)
  have P: "(2::rat) powi (ilog2 x - 52) = 1 / 2 ^ k"
    unfolding e by (simp add: power_int_minus_divide)
  have fr: "float64_round x = of_int (roundEven (x * 2 ^ k)) / 2 ^ k"
    using assms(1) by (simp add: float64_round_def Let_def P)
  have "(of_int (n * 2 ^ k) :: rat) \<le> x * 2 ^ k"
    using assms(3) by simp
  then have "n * 2 ^ k \<le> roundEven (x * 2 ^ k)"
    by (rule roundEven_ge)
  then have "(of_int (n * 2 ^ k) :: rat) \<le> of_int (roundEven (x * 2 ^ k))"
    by (simp only: of_int_le_iff)
  then have "(of_int n :: rat) * 2 ^ k \<le> of_int (roundEven (x * 2 ^ k))"
    by simp
  then show ?thesis
    unfolding fr by (simp add: pos_le_divide_eq)
qed

lemma float64_round_of_int:
  assumes "\<bar>n\<bar> < 2 ^ 53"
  shows "float64_round (of_int n) = of_int n"
proof -
  have pos: "float64_round (of_int m) = of_int m" if "0 < m" "m < 2 ^ 53" for m :: int
  proof -
    let ?x = "of_int m :: rat"
    have x: "0 < ?x" using that by simp
    have "?x < of_int (2 ^ 53)"
      using that(2) by (simp only: of_int_less_iff)
    then have "?x < 2 powi 53" by simp
    then have l: "ilog2 ?x \<le> 52"
      using ilog2_less [OF x, of 53] by simp
    define k where "k = nat (52 - ilog2 ?x)"
    have e: "ilog2 ?x - 52 = - int k"
      using l by (simp add: k_def)
    have P: "(2::rat) powi (ilog2 ?x - 52) = 1 / 2 ^ k"
      unfolding e by (simp add: power_int_minus_divide)
    have "float64_round ?x = of_int (roundEven (?x * 2 ^ k)) / 2 ^ k"
      using x by (simp add: float64_round_def Let_def P)
    also have "?x * 2 ^ k = of_int (m * 2 ^ k)" by simp
    also have "of_int (roundEven (of_int (m * 2 ^ k))) / 2 ^ k = ?x"
      by (simp only: roundEven_of_int) simp
    finally show ?thesis .
  qed
  consider "0 < n" | "n = 0" | "n < 0" by linarith
  then show ?thesis
  proof cases
    case 1
    with assms show ?thesis by (intro pos) simp_all
  next
    case 2
    then show ?thesis by simp
  next
    case 3
    with assms have "float64_round (of_int (- n)) = of_int (- n)"
      by (intro pos) simp_all
    then show ?thesis
      using float64_round_minus [of "of_int n"] by simp
  qed
qed


lemma tquo_trem_nonneg:
  "0 \<le> d \<Longrightarrow> tquo d Second = d div Second" "0 \<le> d \<Longrightarrow> trem d Second = d mod Second"
  by (cases "d = 0"; simp add: tquo_def trem_def Second_def)+

lemma tquo_trem_minus:
  "tquo (- d) Second = - tquo d Second" "trem (- d) Second = - trem d Second"
  by (simp_all add: tquo_def trem_def sgn_minus)

lemma Seconds_minus: "Seconds (- d) = - Seconds d"
proof -
  let ?s = "of_int (tquo d Second) :: rat"
  let ?x = "of_int (trem d Second) / 1000000000 :: rat"
  have "Seconds (- d) = float64_round (- ?s + float64_round (- ?x))"
    by (simp add: Seconds_def Let_def tquo_trem_minus)
  also have "- ?s + float64_round (- ?x) = - (?s + float64_round ?x)"
    by (simp add: float64_round_minus)
  also have "float64_round (- (?s + float64_round ?x)) = - Seconds d"
    by (simp only: float64_round_minus) (simp add: Seconds_def Let_def)
  finally show ?thesis .
qed

lemma int64_of_float64_minus: "int64_of_float64 (- x) = - int64_of_float64 x"
  by (cases "x = 0") (auto simp: int64_of_float64_def)

lemma Seconds_int64_minus: "Seconds_int64 (- d) = - Seconds_int64 d"
  by (simp add: Seconds_int64_def Seconds_minus int64_of_float64_minus)

lemma Seconds_int64_whole_nonneg:
  assumes "0 \<le> d" and "d mod Second = 0" and "d div Second < 2 ^ 53"
  shows "Seconds_int64 d = d div Second"
proof -
  have "0 \<le> d div Second"
    using assms(1) by (simp add: Second_def pos_imp_zdiv_nonneg_iff)
  then have "\<bar>d div Second\<bar> < 2 ^ 53"
    using assms(3) by simp
  then have "Seconds d = of_int (d div Second)"
    using assms(1,2)
    by (simp add: Seconds_def Let_def tquo_trem_nonneg float64_round_of_int)
  with \<open>0 \<le> d div Second\<close> show ?thesis
    by (simp add: Seconds_int64_def int64_of_float64_def)
qed

lemma Seconds_int64_trunc_nonneg:
  assumes "0 \<le> d" and "d < 2 ^ 24 * Second"
  shows "Seconds_int64 d = d div Second"
proof -
  define sec where "sec = d div Second"
  define nsec where "nsec = d mod Second"
  have sec: "0 \<le> sec" "sec + 1 \<le> 2 ^ 24"
    using assms unfolding sec_def Second_def by simp_all
  have nsec: "0 \<le> nsec" "nsec \<le> 999999999"
    unfolding nsec_def Second_def by simp_all
  define x :: rat where "x = of_int nsec / 1000000000"
  define q where "q = float64_round x"
  define s where "s = of_int sec + q"
  define R where "R = float64_round s"
  have S: "Seconds d = R"
    by (simp add: Seconds_def Let_def tquo_trem_nonneg [OF assms(1)]
        sec_def nsec_def x_def q_def s_def R_def)
  have x0: "0 \<le> x"
    using nsec(1) by (simp add: x_def)
  have "(of_int nsec :: rat) \<le> of_int 999999999"
    using nsec(2) by (simp only: of_int_le_iff)
  then have x1: "x \<le> 999999999 / 1000000000"
    by (simp add: x_def)
  have qq: "0 \<le> q \<and> q \<le> x + 2 powi (- 54)"
  proof (cases "x = 0")
    case True
    then show ?thesis
      by (simp add: q_def)
  next
    case False
    with x0 have xp: "0 < x" by simp
    have "x < 2 powi 0" using x1 by simp
    then have l: "ilog2 x < 0"
      by (rule ilog2_less [OF xp])
    have "\<bar>q - x\<bar> \<le> 2 powi (ilog2 x - 53)"
      unfolding q_def by (rule float64_round_near [OF xp])
    also have "\<dots> \<le> 2 powi (- 54)"
      using l by (intro power_int_increasing) simp_all
    finally have "q \<le> x + 2 powi (- 54)" by linarith
    moreover have "of_int 0 \<le> q"
      unfolding q_def using l xp by (intro float64_round_ge) simp_all
    ultimately show ?thesis by simp
  qed
  then have q: "0 \<le> q" "q \<le> x + 2 powi (- 54)"
    by simp_all
  have s0: "of_int sec \<le> s"
    using q(1) by (simp add: s_def)
  have s1: "s \<le> of_int sec + 999999999 / 1000000000 + 2 powi (- 54)"
    using q(2) x1 by (simp add: s_def)
  have sec': "(of_int sec :: rat) + 1 \<le> 2 ^ 24"
  proof -
    have "(of_int (sec + 1) :: rat) \<le> of_int (2 ^ 24)"
      using sec(2) by (simp only: of_int_le_iff)
    then show ?thesis by simp
  qed
  have R: "of_int sec \<le> R \<and> R < of_int sec + 1"
  proof (cases "s = 0")
    case True
    with s0 sec(1) have "sec = 0" by simp
    with True show ?thesis by (simp add: R_def)
  next
    case False
    with s0 sec(1) have sp: "0 < s"
      by (metis of_int_0_le_iff order.trans order_less_le)
    have "s < 2 ^ 24"
      using s1 sec' by simp
    then have "s < 2 powi 24" by simp
    then have l: "ilog2 s < 24"
      by (rule ilog2_less [OF sp])
    have "\<bar>R - s\<bar> \<le> 2 powi (ilog2 s - 53)"
      unfolding R_def by (rule float64_round_near [OF sp])
    also have "\<dots> \<le> 2 powi (- 30)"
      using l by (intro power_int_increasing) simp_all
    finally have "R \<le> s + 2 powi (- 30)" by linarith
    with s1 have "R \<le> of_int sec + 999999999 / 1000000000 + 2 powi (- 54) + 2 powi (- 30)"
      by linarith
    moreover have "(999999999 / 1000000000 + 2 powi (- 54) + 2 powi (- 30) :: rat) < 1"
      by simp
    ultimately have "R < of_int sec + 1" by linarith
    moreover have "of_int sec \<le> R"
      unfolding R_def using sp l s0 by (intro float64_round_ge) simp_all
    ultimately show ?thesis by simp
  qed
  then have "\<lfloor>R\<rfloor> = sec"
    by (intro floor_unique) simp_all
  moreover have "0 \<le> R"
    using R sec(1) by (metis of_int_0_le_iff order.trans)
  ultimately show ?thesis
    by (simp add: Seconds_int64_def S int64_of_float64_def sec_def)
qed

lemma ilog2_eq:
  assumes "2 powi l \<le> x" and "x < 2 powi (l + 1)"
  shows "ilog2 x = l"
proof -
  have xp: "0 < x"
    using assms(1) by (rule less_le_trans [rotated]) simp
  have "ilog2 x < l + 1"
    using assms(2) by (rule ilog2_less [OF xp])
  moreover have "\<not> ilog2 x < l"
  proof
    assume "ilog2 x < l"
    then have "(2::rat) powi (ilog2 x + 1) \<le> 2 powi l"
      by (intro power_int_increasing) simp_all
    with ilog2_bounds(2) [OF xp] assms(1) show False by simp
  qed
  ultimately show ?thesis by simp
qed

lemma roundEven_nearest:
  assumes "\<bar>y - of_int n\<bar> < 1 / 2"
  shows "roundEven y = n"
proof -
  have "\<bar>(of_int (roundEven y) :: rat) - of_int n\<bar> < 1"
    using roundEven_near [of y] assms by linarith
  then have "\<bar>(of_int (roundEven y - n) :: rat)\<bar> < of_int 1"
    by simp
  then have "\<bar>roundEven y - n\<bar> < 1"
    by (simp only: of_int_abs [symmetric] of_int_less_iff)
  then show ?thesis by simp
qed

lemma Seconds_int64_trunc:
  assumes "\<bar>d\<bar> < 2 ^ 24 * Second"
  shows "Seconds_int64 d = (if d < 0 then - ((- d) div Second) else d div Second)"
proof (cases "d < 0")
  case True
  with assms have "Seconds_int64 (- d) = (- d) div Second"
    by (intro Seconds_int64_trunc_nonneg) simp_all
  with True show ?thesis
    using Seconds_int64_minus [of d] by simp
next
  case False
  with assms show ?thesis
    by (simp add: Seconds_int64_trunc_nonneg)
qed

lemma Seconds_int64_whole:
  assumes "d mod Second = 0" and "\<bar>d\<bar> < 2 ^ 53 * Second"
  shows "Seconds_int64 d * Second = d"
proof -
  have pos: "Seconds_int64 m * Second = m"
    if "0 \<le> m" "m mod Second = 0" "m < 2 ^ 53 * Second" for m
  proof -
    from that(3) have "m div Second < 2 ^ 53"
      unfolding Second_def by simp
    with that(1,2) have "Seconds_int64 m = m div Second"
      by (intro Seconds_int64_whole_nonneg)
    with that(2) show ?thesis by auto
  qed
  show ?thesis
  proof (cases "d < 0")
    case True
    with assms have "Seconds_int64 (- d) * Second = - d"
      by (intro pos) (simp_all add: zmod_zminus1_eq_if)
    then show ?thesis
      using Seconds_int64_minus [of d] by simp
  next
    case False
    with assms show ?thesis by (intro pos) simp_all
  qed
qed

lemma Seconds_int64_rounds_up: "Seconds_int64 16777216999999999 = 16777217"
proof -
  define x :: rat where "x = 999999999 / 1000000000"
  define q where "q = float64_round x"
  define s where "s = 16777216 + q"
  have S: "Seconds 16777216999999999 = float64_round s"
    by (simp add: Seconds_def Let_def tquo_def trem_def Second_def x_def q_def s_def)
  have xp: "0 < x" by (simp add: x_def)
  have "x < 2 powi 0" by (simp add: x_def)
  then have "ilog2 x < 0" by (rule ilog2_less [OF xp])
  then have "(2::rat) powi (ilog2 x - 53) \<le> 2 powi (- 54)"
    by (intro power_int_increasing) simp_all
  with float64_round_near [OF xp] have q: "\<bar>q - x\<bar> \<le> 2 powi (- 54)"
    unfolding q_def by linarith
  have "(2::rat) powi (- 54) = 1 / 18014398509481984"
    by simp
  with q have q1: "999999999 / 1000000000 - 1 / 18014398509481984 \<le> q"
    and q2: "q \<le> 999999999 / 1000000000 + 1 / 18014398509481984"
    unfolding x_def by linarith+
  have "(2::rat) powi 24 \<le> s"
    using q1 by (simp add: s_def)
  moreover have "s < 2 powi (24 + 1)"
    using q2 by (simp add: s_def)
  ultimately have l: "ilog2 s = 24"
    by (rule ilog2_eq)
  have sp: "\<bar>s\<bar> = s"
    using q1 by (simp add: s_def)
  have "float64_round s = of_int (roundEven (s * 2 ^ 28)) / 2 ^ 28"
    by (simp add: float64_round_def Let_def sp l power_int_minus_divide)
  also have "roundEven (s * 2 ^ 28) = 16777217 * 2 ^ 28"
  proof (rule roundEven_nearest)
    have "s * 2 ^ 28 - of_int (16777217 * 2 ^ 28) = (q - 1) * 268435456"
      by (simp add: s_def algebra_simps)
    moreover have "\<bar>(q - 1) * 268435456\<bar> < 1 / 2"
      using q1 q2 by (simp add: abs_less_iff)
    ultimately show "\<bar>s * 2 ^ 28 - of_int (16777217 * 2 ^ 28)\<bar> < 1 / 2"
      by simp
  qed
  finally have "float64_round s = 16777217" by simp
  then show ?thesis
    by (simp add: Seconds_int64_def S int64_of_float64_def)
qed

lemma roundEven_le: "y \<le> of_int n \<Longrightarrow> roundEven y \<le> n"
proof -
  assume "y \<le> of_int n"
  then have "of_int (- n) \<le> - y" by simp
  then have "- n \<le> roundEven (- y)" by (rule roundEven_ge)
  then show ?thesis by (simp add: roundEven_minus)
qed

lemma float64_round_le:
  assumes "0 < x" and "ilog2 x \<le> 52" and "x \<le> of_int n"
  shows "float64_round x \<le> of_int n"
proof -
  define k where "k = nat (52 - ilog2 x)"
  have e: "ilog2 x - 52 = - int k"
    using assms(2) by (simp add: k_def)
  have P: "(2::rat) powi (ilog2 x - 52) = 1 / 2 ^ k"
    unfolding e by (simp add: power_int_minus_divide)
  have fr: "float64_round x = of_int (roundEven (x * 2 ^ k)) / 2 ^ k"
    using assms(1) by (simp add: float64_round_def Let_def P)
  have "x * 2 ^ k \<le> (of_int (n * 2 ^ k) :: rat)"
    using assms(3) by simp
  then have "roundEven (x * 2 ^ k) \<le> n * 2 ^ k"
    by (rule roundEven_le)
  then have "(of_int (roundEven (x * 2 ^ k)) :: rat) \<le> of_int (n * 2 ^ k)"
    by (simp only: of_int_le_iff)
  then have "(of_int (roundEven (x * 2 ^ k)) :: rat) \<le> of_int n * 2 ^ k"
    by simp
  then show ?thesis
    unfolding fr by (simp add: pos_divide_le_eq)
qed

lemma Seconds_int64_between_nonneg:
  assumes "0 \<le> d" and "d < 2 ^ 53 * Second"
  shows "d div Second \<le> Seconds_int64 d \<and> Seconds_int64 d \<le> d div Second + 1"
proof -
  define sec where "sec = d div Second"
  define nsec where "nsec = d mod Second"
  have sec: "0 \<le> sec" "sec + 1 \<le> 2 ^ 53"
    using assms unfolding sec_def Second_def by simp_all
  have nsec: "0 \<le> nsec" "nsec \<le> 999999999"
    unfolding nsec_def Second_def by simp_all
  define x :: rat where "x = of_int nsec / 1000000000"
  define q where "q = float64_round x"
  define s where "s = of_int sec + q"
  define R where "R = float64_round s"
  have S: "Seconds d = R"
    by (simp add: Seconds_def Let_def tquo_trem_nonneg [OF assms(1)]
        sec_def nsec_def x_def q_def s_def R_def)
  have x0: "0 \<le> x"
    using nsec(1) by (simp add: x_def)
  have "(of_int nsec :: rat) \<le> of_int 999999999"
    using nsec(2) by (simp only: of_int_le_iff)
  then have x1: "x \<le> 999999999 / 1000000000"
    by (simp add: x_def)
  have qq: "0 \<le> q \<and> q < 1"
  proof (cases "x = 0")
    case True
    then show ?thesis
      by (simp add: q_def)
  next
    case False
    with x0 have xp: "0 < x" by simp
    have "x < 2 powi 0" using x1 by simp
    then have l: "ilog2 x < 0"
      by (rule ilog2_less [OF xp])
    have "\<bar>q - x\<bar> \<le> 2 powi (ilog2 x - 53)"
      unfolding q_def by (rule float64_round_near [OF xp])
    also have "\<dots> \<le> 2 powi (- 54)"
      using l by (intro power_int_increasing) simp_all
    finally have "q \<le> x + 2 powi (- 54)" by linarith
    with x1 have "q \<le> 999999999 / 1000000000 + 2 powi (- 54)" by linarith
    moreover have "(999999999 / 1000000000 + 2 powi (- 54) :: rat) < 1" by simp
    ultimately have "q < 1" by linarith
    moreover have "of_int 0 \<le> q"
      unfolding q_def using l xp by (intro float64_round_ge) simp_all
    ultimately show ?thesis by simp
  qed
  have s0: "of_int sec \<le> s" and s1: "s < of_int (sec + 1)"
    using qq by (simp_all add: s_def)
  have sec': "(of_int (sec + 1) :: rat) \<le> 2 powi 53"
  proof -
    have "(of_int (sec + 1) :: rat) \<le> of_int (2 ^ 53)"
      using sec(2) by (simp only: of_int_le_iff)
    then show ?thesis by simp
  qed
  have R: "of_int sec \<le> R \<and> R \<le> of_int (sec + 1)"
  proof (cases "s = 0")
    case True
    with s0 sec(1) have "sec = 0" by simp
    with True show ?thesis by (simp add: R_def)
  next
    case False
    with s0 sec(1) have sp: "0 < s"
      by (metis of_int_0_le_iff order.trans order_less_le)
    have "s < 2 powi 53"
      using s1 sec' by linarith
    then have l: "ilog2 s < 53"
      by (rule ilog2_less [OF sp])
    have "of_int sec \<le> R"
      unfolding R_def using sp l s0 by (intro float64_round_ge) simp_all
    moreover have "R \<le> of_int (sec + 1)"
      unfolding R_def using sp l s1 by (intro float64_round_le) simp_all
    ultimately show ?thesis by simp
  qed
  then have "sec \<le> \<lfloor>R\<rfloor>" and "\<lfloor>R\<rfloor> \<le> sec + 1"
    by (simp_all add: le_floor_iff floor_le_iff)
  moreover have "0 \<le> R"
    using R sec(1) by (metis of_int_0_le_iff order.trans)
  ultimately show ?thesis
    by (simp add: Seconds_int64_def S int64_of_float64_def sec_def)
qed

lemma tquo_Second:
  "tquo d Second = (if d < 0 then - ((- d) div Second) else d div Second)"
  by (simp add: tquo_def Second_def sgn_if)

lemma Seconds_int64_tquo:
  assumes "\<bar>d\<bar> < 2 ^ 24 * Second"
  shows "Seconds_int64 d = tquo d Second"
  using Seconds_int64_trunc [OF assms] by (simp add: tquo_Second)

lemma Seconds_int64_tquo_or_next:
  assumes "minDuration \<le> d" and "d \<le> maxDuration"
  shows "Seconds_int64 d = tquo d Second \<or> Seconds_int64 d = tquo d Second + sgn d"
proof (cases "d < 0")
  case True
  with assms have "(- d) div Second \<le> Seconds_int64 (- d)
      \<and> Seconds_int64 (- d) \<le> (- d) div Second + 1"
    by (intro Seconds_int64_between_nonneg) (simp_all add: minDuration_def Second_def)
  with True show ?thesis
    using Seconds_int64_minus [of d] by (auto simp: tquo_Second)
next
  case False
  with assms have "d div Second \<le> Seconds_int64 d \<and> Seconds_int64 d \<le> d div Second + 1"
    by (intro Seconds_int64_between_nonneg) (simp_all add: maxDuration_def Second_def)
  moreover have "tquo d Second = d div Second"
    using False by (simp add: tquo_Second)
  moreover have "d = 0 \<Longrightarrow> Seconds_int64 d = d div Second"
    by (simp add: Seconds_int64_trunc Second_def)
  moreover have "d \<noteq> 0 \<Longrightarrow> sgn d = 1"
    using False by simp
  ultimately show ?thesis
    by (cases "d = 0") auto
qed

lemma Seconds_int64_whole_int64:
  assumes "d mod Second = 0" and "minDuration \<le> d" and "d \<le> maxDuration"
  shows "Seconds_int64 d * Second = d"
  using assms by (intro Seconds_int64_whole) (simp_all add: minDuration_def maxDuration_def Second_def)

lemma Seconds_int64_values:
  "Seconds_int64 0 = 0"
  "Seconds_int64 defaultTimeout = 1800"
  "Seconds_int64 Minute = 60"
  "Seconds_int64 500000000 = 0"
  by (simp_all add: Seconds_int64_trunc defaultTimeout_def Minute_def Second_def)

subsection \<open>Whitespace\<close>

lemma spaceRunes_nonempty: "e \<in> set spaceRunes \<Longrightarrow> e \<noteq> []"
  by (auto simp: spaceRunes_def)

lemma spaceRunes_prefix_free:
  "\<forall>e\<in>set spaceRunes. \<forall>e'\<in>set spaceRunes. prefix e e' \<longrightarrow> e = e'"
  by (simp add: spaceRunes_def)

lemma find_space_prefix:
  assumes "e \<in> set spaceRunes"
  shows "find (\<lambda>x. prefix x (e @ r)) spaceRunes = Some e"
proof -
  have "\<exists>x. find (\<lambda>x. prefix x (e @ r)) spaceRunes = Some x"
    using assms by (cases "find (\<lambda>x. prefix x (e @ r)) spaceRunes") (auto simp: find_None_iff)
  then obtain x where fx: "find (\<lambda>x. prefix x (e @ r)) spaceRunes = Some x" by blast
  then have xin: "x \<in> set spaceRunes" and px: "prefix x (e @ r)"
    by (auto simp: find_Some_iff)
  from px have "prefix x e \<or> prefix e x"
    using prefix_same_cases [of x "e @ r" e] by auto
  with xin assms spaceRunes_prefix_free have "x = e" by blast
  with fx show ?thesis by simp
qed

lemma TrimLeftSpace_concat:
  "set es \<subseteq> set spaceRunes \<Longrightarrow> TrimLeftSpace (concat es) = []"
proof (induction es)
  case Nil
  have "find (\<lambda>e. prefix e []) spaceRunes = None"
    by (auto simp: find_None_iff dest: spaceRunes_nonempty)
  then show ?case by (simp add: TrimLeftSpace.simps)
next
  case (Cons e es)
  then have "find (\<lambda>x. prefix x (e @ concat es)) spaceRunes = Some e"
    by (simp add: find_space_prefix)
  with Cons show ?case by (simp add: TrimLeftSpace.simps [of "e @ concat es"])
qed

lemma TrimRightSpace_Nil: "TrimRightSpace [] = []"
proof -
  have "find (\<lambda>e. suffix e []) spaceRunes = None"
    by (auto simp: find_None_iff dest: spaceRunes_nonempty)
  then show ?thesis by (simp add: TrimRightSpace.simps)
qed

lemma TrimSpace_concat:
  "set es \<subseteq> set spaceRunes \<Longrightarrow> TrimSpace (concat es) = []"
  by (simp add: TrimSpace_def TrimLeftSpace_concat TrimRightSpace_Nil)

lemma TrimLeftSpace_decomp:
  "\<exists>es. set es \<subseteq> set spaceRunes \<and> s = concat es @ TrimLeftSpace s"
proof (induction s rule: TrimLeftSpace.induct)
  case (1 s)
  show ?case
  proof (cases "find (\<lambda>e. prefix e s) spaceRunes")
    case None
    then have "TrimLeftSpace s = s"
      by (simp add: TrimLeftSpace.simps [of s])
    then have "set [] \<subseteq> set spaceRunes \<and> s = concat [] @ TrimLeftSpace s"
      by simp
    then show ?thesis by blast
  next
    case (Some e)
    then have e: "e \<in> set spaceRunes" and p: "prefix e s"
      by (auto simp: find_Some_iff)
    from Some have t: "TrimLeftSpace s = TrimLeftSpace (drop (length e) s)"
      by (simp add: TrimLeftSpace.simps [of s])
    from "1.IH" [OF Some] obtain es where
      es: "set es \<subseteq> set spaceRunes"
        "drop (length e) s = concat es @ TrimLeftSpace (drop (length e) s)"
      by blast
    from p have "s = e @ drop (length e) s"
      by (auto simp: prefix_def)
    with es(2) t have "s = concat (e # es) @ TrimLeftSpace s"
      by simp
    moreover have "set (e # es) \<subseteq> set spaceRunes"
      using e es(1) by simp
    ultimately show ?thesis by blast
  qed
qed

lemma TrimLeftSpace_no_space_prefix:
  "find (\<lambda>e. prefix e (TrimLeftSpace s)) spaceRunes = None"
proof (induction s rule: TrimLeftSpace.induct)
  case (1 s)
  show ?case
  proof (cases "find (\<lambda>e. prefix e s) spaceRunes")
    case None
    then show ?thesis
      by (simp add: TrimLeftSpace.simps [of s])
  next
    case (Some e)
    with "1.IH" [OF Some] show ?thesis
      by (simp add: TrimLeftSpace.simps [of s])
  qed
qed

lemma TrimRightSpace_decomp:
  "\<exists>es. set es \<subseteq> set spaceRunes \<and> s = TrimRightSpace s @ concat es"
proof (induction s rule: TrimRightSpace.induct)
  case (1 s)
  show ?case
  proof (cases "find (\<lambda>e. suffix e s) spaceRunes")
    case None
    then have "TrimRightSpace s = s"
      by (simp add: TrimRightSpace.simps [of s])
    then have "set [] \<subseteq> set spaceRunes \<and> s = TrimRightSpace s @ concat []"
      by simp
    then show ?thesis by blast
  next
    case (Some e)
    then have e: "e \<in> set spaceRunes" and p: "suffix e s"
      by (auto simp: find_Some_iff)
    let ?r = "take (length s - length e) s"
    from Some have t: "TrimRightSpace s = TrimRightSpace ?r"
      by (simp add: TrimRightSpace.simps [of s])
    from "1.IH" [OF Some] obtain es where
      es: "set es \<subseteq> set spaceRunes" "?r = TrimRightSpace ?r @ concat es"
      by blast
    from p have "s = ?r @ e"
      by (auto simp: suffix_def)
    with es(2) t have "s = TrimRightSpace s @ concat (es @ [e])"
      by (metis append.assoc append_Nil2 concat.simps(1) concat.simps(2) concat_append)
    moreover have "set (es @ [e]) \<subseteq> set spaceRunes"
      using e es(1) by simp
    ultimately show ?thesis by blast
  qed
qed

lemma TrimSpace_empty_iff:
  "TrimSpace s = [] \<longleftrightarrow> (\<exists>es. set es \<subseteq> set spaceRunes \<and> s = concat es)"
proof
  assume "TrimSpace s = []"
  then have r: "TrimRightSpace (TrimLeftSpace s) = []"
    by (simp add: TrimSpace_def)
  obtain es where es: "set es \<subseteq> set spaceRunes" "TrimLeftSpace s = concat es"
    using TrimRightSpace_decomp [of "TrimLeftSpace s"] r by auto
  have "TrimLeftSpace s = []"
  proof (cases es)
    case Nil
    with es(2) show ?thesis by simp
  next
    case (Cons e es')
    with es have "e \<in> set spaceRunes" and "prefix e (TrimLeftSpace s)"
      by simp_all
    with TrimLeftSpace_no_space_prefix [of s] show ?thesis
      by (auto simp: find_None_iff)
  qed
  with TrimLeftSpace_decomp [of s] show "\<exists>es. set es \<subseteq> set spaceRunes \<and> s = concat es"
    by auto
next
  assume "\<exists>es. set es \<subseteq> set spaceRunes \<and> s = concat es"
  then show "TrimSpace s = []"
    by (auto simp: TrimSpace_concat)
qed

subsection \<open>Composition and submission\<close>

lemma composeLoop_world:
  "\<exists>k. snd (composeLoop vq opts res w) = w\<lparr>now_count := now_count w + k\<rparr>"
proof (induction vq opts res w rule: composeLoop.induct)
  case (1 vq res w)
  have "w = w\<lparr>now_count := now_count w + 0\<rparr>" by simp
  then show ?case by (metis composeLoop.simps(1) snd_conv)
next
  case (9 vq d opts res w)
  then obtain k where
    "snd (composeLoop vq opts (res\<lparr>processAt := time_Add (now_readings w (now_count w)) d\<rparr>)
           (w\<lparr>now_count := Suc (now_count w)\<rparr>))
       = w\<lparr>now_count := Suc (now_count w)\<rparr>\<lparr>now_count := now_count (w\<lparr>now_count := Suc (now_count w)\<rparr>) + k\<rparr>"
    by (auto simp: time_Now_def)
  then have "snd (composeLoop vq (processInOption d # opts) res w)
       = w\<lparr>now_count := now_count w + Suc k\<rparr>"
    by (simp add: time_Now_def)
  then show ?case by blast
qed (auto split: option.splits intro: exI [of _ 0])

lemma composeLoop_error:
  "snd (fst (composeLoop vq opts res w)) = firstError vq opts"
  by (induction vq opts res w rule: composeLoop.induct)
     (auto split: option.splits prod.splits)

lemma composeLoop_zero:
  "firstError vq opts \<noteq> None \<Longrightarrow> fst (fst (composeLoop vq opts res w)) = option_zero"
  by (induction vq opts res w rule: composeLoop.induct)
     (auto split: option.splits prod.splits)

lemma composeOptions_world:
  "\<exists>k. snd (composeOptions vq opts w)
        = w\<lparr>now_count := now_count w + k, uuid_count := Suc (uuid_count w)\<rparr>"
proof -
  let ?w2 = "w\<lparr>uuid_count := Suc (uuid_count w), now_count := Suc (now_count w)\<rparr>"
  obtain k where "snd (composeLoop vq opts
      \<lparr>retry = defaultMaxRetry, queue = DefaultQueueName, taskID = uuid_readings w (uuid_count w),
       timeout = 0, deadline = zeroTime, uniqueTTL = 0,
       processAt = now_readings w (now_count w), retention = 0\<rparr> ?w2)
     = ?w2\<lparr>now_count := now_count ?w2 + k\<rparr>"
    using composeLoop_world by blast
  then have "snd (composeOptions vq opts w)
        = w\<lparr>now_count := now_count w + Suc k, uuid_count := Suc (uuid_count w)\<rparr>"
    by (simp add: composeOptions_def uuid_NewString_def time_Now_def)
  then show ?thesis by blast
qed

lemma composeOptions_keeps:
  assumes "composeOptions vq opts w = (r, w1)"
  shows "rdb_log w1 = rdb_log w" and "rdb_reply w1 = rdb_reply w"
    and "now_readings w1 = now_readings w" and "uuid_readings w1 = uuid_readings w"
proof -
  obtain k where "snd (composeOptions vq opts w)
        = w\<lparr>now_count := now_count w + k, uuid_count := Suc (uuid_count w)\<rparr>"
    using composeOptions_world by blast
  with assms have w1: "w1 = w\<lparr>now_count := now_count w + k, uuid_count := Suc (uuid_count w)\<rparr>"
    by simp
  show "rdb_log w1 = rdb_log w" and "rdb_reply w1 = rdb_reply w"
    and "now_readings w1 = now_readings w" and "uuid_readings w1 = uuid_readings w"
    by (simp_all add: w1)
qed

lemma composeOptions_error:
  "snd (fst (composeOptions vq opts w)) = firstError vq opts"
  by (simp add: composeOptions_def uuid_NewString_def time_Now_def composeLoop_error)

lemma composeOptions_zero:
  "firstError vq opts \<noteq> None \<Longrightarrow> fst (fst (composeOptions vq opts w)) = option_zero"
  by (simp add: composeOptions_def uuid_NewString_def time_Now_def composeLoop_zero)

lemma resultOf_pair:
  "(if errors_Is err errors_ErrDuplicateTask then (Inl (Errorf_w ErrDuplicateTask), w3)
    else if errors_Is err errors_ErrTaskIdConflict then (Inl (Errorf_w ErrTaskIDConflict), w3)
    else (case err of Some e \<Rightarrow> (Inl e, w3) | None \<Rightarrow> (Inr info, w3)))
   = (resultOf err info, w3)"
  by (simp add: resultOf_def split: option.split)

lemma Enqueue_composed:
  assumes nb: "TrimSpace (typename task) \<noteq> []"
      and comp: "composeOptions vq (task_opts task @ opts) w = ((opt, None), w1)"
  shows "Enqueue vq task opts w =
     (let now = now_readings w (now_count w1);
          now' = now_readings w (Suc (now_count w1));
          m = messageOf task opt;
          c = operationOf m opt now now'
      in (resultOf (rdb_reply w (rdb_log w) c)
            (newTaskInfo m (if processAt opt \<le> now then TaskStatePending else TaskStateScheduled)
               (if processAt opt \<le> now then now else processAt opt)),
          w1\<lparr>now_count := (if processAt opt \<le> now \<or> \<not> 0 < uniqueTTL opt
                             then Suc (now_count w1) else Suc (Suc (now_count w1))),
              rdb_log := rdb_log w @ [c]\<rparr>))"
proof -
  note keeps = composeOptions_keeps [OF comp]
  define m where "m = messageOf task opt"
  have "Enqueue vq task opts w =
     (case time_Now w1 of (now, w2) \<Rightarrow>
           case (if processAt opt \<le> now
                 then (case enqueue m (uniqueTTL opt) w2 of
                         (err, w3) \<Rightarrow> (now, err, TaskStatePending, w3))
                 else (case schedule m (processAt opt) (uniqueTTL opt) w2 of
                         (err, w3) \<Rightarrow> (processAt opt, err, TaskStateScheduled, w3)))
           of (processAt', err, state, w3) \<Rightarrow>
             if errors_Is err errors_ErrDuplicateTask then
               (Inl (Errorf_w ErrDuplicateTask), w3)
             else if errors_Is err errors_ErrTaskIdConflict then
               (Inl (Errorf_w ErrTaskIDConflict), w3)
             else (case err of
                     Some e \<Rightarrow> (Inl e, w3)
                   | None \<Rightarrow> (Inr (newTaskInfo m state processAt'), w3)))"
    using nb unfolding Enqueue_def m_def messageOf_def Let_def
    by (simp only: comp if_False prod.case option.case)
  then have E: "Enqueue vq task opts w =
     (case time_Now w1 of (now, w2) \<Rightarrow>
           case (if processAt opt \<le> now
                 then (case enqueue m (uniqueTTL opt) w2 of
                         (err, w3) \<Rightarrow> (now, err, TaskStatePending, w3))
                 else (case schedule m (processAt opt) (uniqueTTL opt) w2 of
                         (err, w3) \<Rightarrow> (processAt opt, err, TaskStateScheduled, w3)))
           of (processAt', err, state, w3) \<Rightarrow>
              (resultOf err (newTaskInfo m state processAt'), w3))"
    by (simp only: resultOf_pair)
  consider (iu) "processAt opt \<le> now_readings w (now_count w1)" "0 < uniqueTTL opt"
    | (ip) "processAt opt \<le> now_readings w (now_count w1)" "\<not> 0 < uniqueTTL opt"
    | (du) "\<not> processAt opt \<le> now_readings w (now_count w1)" "0 < uniqueTTL opt"
    | (dp) "\<not> processAt opt \<le> now_readings w (now_count w1)" "\<not> 0 < uniqueTTL opt"
    by blast
  then show ?thesis
  proof cases
    case iu
    then show ?thesis
      unfolding E m_def [symmetric]
      by (simp add: Let_def keeps enqueue_def rdb_do_def time_Now_def operationOf_def)
  next
    case ip
    then show ?thesis
      unfolding E m_def [symmetric]
      by (simp add: Let_def keeps enqueue_def rdb_do_def time_Now_def operationOf_def)
  next
    case du
    then show ?thesis
      unfolding E m_def [symmetric]
      by (simp add: Let_def keeps schedule_def rdb_do_def time_Now_def operationOf_def)
  next
    case dp
    then show ?thesis
      unfolding E m_def [symmetric]
      by (simp add: Let_def keeps schedule_def rdb_do_def time_Now_def operationOf_def)
  qed
qed

lemma lastOf_None_iff: "lastOf f xs = None \<longleftrightarrow> (\<forall>x\<in>set xs. f x = None)"
  by (induction xs) (auto split: option.splits)

lemma lastOf_append:
  "lastOf f (xs @ ys) = (case lastOf f ys of Some v \<Rightarrow> Some v | None \<Rightarrow> lastOf f xs)"
  by (induction xs) (auto split: option.splits)

lemma composeOptions_ok:
  assumes "firstError vq opts = None"
  shows "composeOptions vq opts w
           = ((fst (fst (composeOptions vq opts w)), None), snd (composeOptions vq opts w))"
  using composeOptions_error [of vq opts w] assms by (simp add: prod_eq_iff)

lemma composeLoop_fields:
  assumes "firstError vq opts = None"
  shows "fst (fst (composeLoop vq opts res w)) =
     \<lparr>retry = (case lastOf retry_of opts of None \<Rightarrow> retry res | Some v \<Rightarrow> v),
      queue = (case lastOf queue_of opts of None \<Rightarrow> queue res | Some v \<Rightarrow> v),
      taskID = (case lastOf taskID_of opts of None \<Rightarrow> taskID res | Some v \<Rightarrow> v),
      timeout = (case lastOf timeout_of opts of None \<Rightarrow> timeout res | Some v \<Rightarrow> v),
      deadline = (case lastOf deadline_of opts of None \<Rightarrow> deadline res | Some v \<Rightarrow> v),
      uniqueTTL = (case lastOf unique_of opts of None \<Rightarrow> uniqueTTL res | Some v \<Rightarrow> v),
      processAt = (case lastSched (now_readings w) (now_count w) opts of
                     None \<Rightarrow> processAt res | Some v \<Rightarrow> v),
      retention = (case lastOf retention_of opts of None \<Rightarrow> retention res | Some v \<Rightarrow> v)\<rparr>"
  using assms
proof (induction vq opts res w rule: composeLoop.induct)
  case (9 vq d opts res w)
  then show ?case
    by (simp add: time_Now_def time_Add_def split: option.splits)
qed (simp_all split: option.splits)

lemma composeOptions_fields:
  assumes "firstError vq opts = None"
  shows "fst (fst (composeOptions vq opts w)) =
     \<lparr>retry = (case lastOf retry_of opts of None \<Rightarrow> defaultMaxRetry | Some v \<Rightarrow> v),
      queue = (case lastOf queue_of opts of None \<Rightarrow> DefaultQueueName | Some v \<Rightarrow> v),
      taskID = (case lastOf taskID_of opts of
                  None \<Rightarrow> uuid_readings w (uuid_count w) | Some v \<Rightarrow> v),
      timeout = (case lastOf timeout_of opts of None \<Rightarrow> 0 | Some v \<Rightarrow> v),
      deadline = (case lastOf deadline_of opts of None \<Rightarrow> zeroTime | Some v \<Rightarrow> v),
      uniqueTTL = (case lastOf unique_of opts of None \<Rightarrow> 0 | Some v \<Rightarrow> v),
      processAt = (case lastSched (now_readings w) (Suc (now_count w)) opts of
                     None \<Rightarrow> now_readings w (now_count w) | Some v \<Rightarrow> v),
      retention = (case lastOf retention_of opts of None \<Rightarrow> 0 | Some v \<Rightarrow> v)\<rparr>"
  by (simp add: composeOptions_def uuid_NewString_def time_Now_def
      composeLoop_fields [OF assms] cong: option.case_cong)

lemma Enqueue_rejected:
  assumes nb: "TrimSpace (typename task) \<noteq> []"
      and bad: "firstError vq (task_opts task @ opts) = Some e"
  shows "fst (Enqueue vq task opts w) = Inl e"
    and "rdb_log (snd (Enqueue vq task opts w)) = rdb_log w"
proof -
  obtain opt w1 where c: "composeOptions vq (task_opts task @ opts) w = ((opt, Some e), w1)"
    using composeOptions_error [of vq "task_opts task @ opts" w] bad
    by (metis prod.collapse)
  from composeOptions_keeps [OF c] have "rdb_log w1 = rdb_log w" by simp
  with nb c show "fst (Enqueue vq task opts w) = Inl e"
    and "rdb_log (snd (Enqueue vq task opts w)) = rdb_log w"
    by (simp_all add: Enqueue_def)
qed

lemma messageOf_default_timeout:
  assumes "timeout opt = 0" and "deadline opt = zeroTime"
  shows "msg_Timeout (messageOf task opt) = 1800"
    and "msg_Deadline (messageOf task opt) = 0"
proof -
  have "msg_Timeout (messageOf task opt) = Seconds_int64 defaultTimeout"
    and "msg_Deadline (messageOf task opt) = Unix noDeadline"
    using assms by (simp_all add: messageOf_def IsZero_def noTimeout_def)
  then show "msg_Timeout (messageOf task opt) = 1800"
    and "msg_Deadline (messageOf task opt) = 0"
    by (simp_all add: Seconds_int64_values noDeadline_def time_Unix_def Unix_def)
qed

lemma sample_typename: "TrimSpace (typename sampleTask) \<noteq> []"
  unfolding sampleTask_def by code_simp

lemma sample_queue: "sampleValidateQueueName ''critical'' = None"
  unfolding sampleValidateQueueName_def by code_simp

lemma chain_Is_exclusive:
  "chain_Is e errors_ErrDuplicateTask \<Longrightarrow> \<not> chain_Is e errors_ErrTaskIdConflict"
  by (induction e) auto

lemma sample_compose_scheduled:
  "composeOptions vq [ProcessIn Hour, Unique (10 * Minute)] sampleWorld
     = ((\<lparr>retry = 25, queue = ''default'',
          taskID = ''6ba7b810-9dad-11d1-80b4-00c04fd430c8'', timeout = 0,
          deadline = zeroTime, uniqueTTL = 600000000000,
          processAt = 1700003600000001000, retention = 0\<rparr>, None),
        sampleWorld\<lparr>now_count := 2, uuid_count := 1\<rparr>)"
  by (simp add: composeOptions_def uuid_NewString_def time_Now_def time_Add_def
      sampleWorld_def ProcessIn_def Unique_def defaultMaxRetry_def DefaultQueueName_def
      Hour_def Minute_def Second_def)

lemma Enqueue_log:
  assumes "TrimSpace (typename task) \<noteq> []"
      and "composeOptions vq (task_opts task @ opts) w = ((opt, None), w1)"
  shows "rdb_log (snd (Enqueue vq task opts w))
     = rdb_log w @ [operationOf (messageOf task opt) opt (now_readings w (now_count w1))
                      (now_readings w (Suc (now_count w1)))]"
  by (simp add: Enqueue_composed [OF assms] Let_def)

lemma op_msg_operationOf: "op_msg (operationOf m opt now now') = m"
  by (simp add: operationOf_def)

lemma sample_Enqueue_scheduled_log:
  "rdb_log (snd (Enqueue sampleValidateQueueName sampleTask
        [ProcessIn Hour, Unique (10 * Minute)] sampleWorld))
     = [rdb_ScheduleUnique
          (messageOf sampleTask
             \<lparr>retry = 25, queue = ''default'',
              taskID = ''6ba7b810-9dad-11d1-80b4-00c04fd430c8'', timeout = 0,
              deadline = zeroTime, uniqueTTL = 600000000000,
              processAt = 1700003600000001000, retention = 0\<rparr>)
          1700003600000001000 4199999998000]"
proof -
  have c: "composeOptions sampleValidateQueueName
        (task_opts sampleTask @ [ProcessIn Hour, Unique (10 * Minute)]) sampleWorld
       = ((\<lparr>retry = 25, queue = ''default'',
            taskID = ''6ba7b810-9dad-11d1-80b4-00c04fd430c8'', timeout = 0,
            deadline = zeroTime, uniqueTTL = 600000000000,
            processAt = 1700003600000001000, retention = 0\<rparr>, None),
          sampleWorld\<lparr>now_count := 2, uuid_count := 1\<rparr>)"
    by (simp add: sampleTask_def sample_compose_scheduled)
  show ?thesis
    unfolding Enqueue_log [OF sample_typename c]
    by (simp add: operationOf_def sampleWorld_def time_Sub_def time_Add_def Second_def
        maxDuration_def minDuration_def)
qed

lemma Enqueue_sent_message:
  assumes "TrimSpace (typename task) \<noteq> []"
      and "firstError vq (task_opts task @ opts) = None"
  shows "\<exists>c. rdb_log (snd (Enqueue vq task opts w)) = rdb_log w @ [c]
           \<and> op_msg c = messageOf task (fst (fst (composeOptions vq (task_opts task @ opts) w)))"
  using Enqueue_log [OF assms(1) composeOptions_ok [OF assms(2)], of w]
  by (simp add: op_msg_operationOf)

lemma Enqueue_blank_log:
  "TrimSpace (typename task) = [] \<Longrightarrow> rdb_log (snd (Enqueue vq task opts w)) = rdb_log w"
  by (simp add: Enqueue_def)

lemma Enqueue_log_grows:
  assumes "rdb_log (snd (Enqueue vq task opts w)) = rdb_log w @ [c]"
  shows "TrimSpace (typename task) \<noteq> []"
    and "firstError vq (task_opts task @ opts) = None"
proof -
  show nb: "TrimSpace (typename task) \<noteq> []"
    using assms Enqueue_blank_log [of task vq opts w] by auto
  show "firstError vq (task_opts task @ opts) = None"
  proof (cases "firstError vq (task_opts task @ opts)")
    case None
    then show ?thesis .
  next
    case (Some e)
    from Enqueue_rejected(2) [OF nb Some, of w] assms show ?thesis by simp
  qed
qed

lemma op_unique_operationOf: "op_unique (operationOf m opt now now') \<longleftrightarrow> 0 < uniqueTTL opt"
  by (simp add: operationOf_def)

lemma messageOf_simple_fields:
  "msg_ID (messageOf task opt) = taskID opt"
  "msg_Type (messageOf task opt) = typename task"
  "msg_Payload (messageOf task opt) = payload task"
  "msg_Queue (messageOf task opt) = queue opt"
  "msg_Retry (messageOf task opt) = retry opt"
  "msg_Retention (messageOf task opt) = Seconds_int64 (retention opt)"
  "msg_UniqueKey (messageOf task opt)
     = (if 0 < uniqueTTL opt then UniqueKey (queue opt) (typename task) (payload task)
        else [])"
  by (simp_all add: messageOf_def Let_def)

lemma Enqueue_unique_key:
  assumes "rdb_log (snd (Enqueue vq task opts w)) = rdb_log w @ [c]" and "op_unique c"
  shows "msg_UniqueKey (op_msg c)
           = UniqueKey (msg_Queue (op_msg c)) (typename task) (payload task)"
proof -
  note nb = Enqueue_log_grows(1) [OF assms(1)]
  note ok = Enqueue_log_grows(2) [OF assms(1)]
  let ?opt = "fst (fst (composeOptions vq (task_opts task @ opts) w))"
  let ?w1 = "snd (composeOptions vq (task_opts task @ opts) w)"
  have c: "c = operationOf (messageOf task ?opt) ?opt (now_readings w (now_count ?w1))
                 (now_readings w (Suc (now_count ?w1)))"
    using Enqueue_log [OF nb composeOptions_ok [OF ok], of w] assms(1) by simp
  from assms(2) have "0 < uniqueTTL ?opt"
    unfolding c by (simp add: op_unique_operationOf)
  then show ?thesis
    unfolding c op_msg_operationOf by (simp add: messageOf_simple_fields)
qed

lemma Enqueue_unique_sent:
  assumes "TrimSpace (typename task) \<noteq> []"
      and "firstError vq (task_opts task @ opts) = None"
      and "lastOf unique_of (task_opts task @ opts) = Some u" and "0 < u"
  shows "\<exists>c. rdb_log (snd (Enqueue vq task opts w)) = rdb_log w @ [c] \<and> op_unique c
           \<and> msg_Queue (op_msg c)
               = (case lastOf queue_of (task_opts task @ opts) of
                    None \<Rightarrow> DefaultQueueName | Some q \<Rightarrow> q)"
proof -
  let ?opt = "fst (fst (composeOptions vq (task_opts task @ opts) w))"
  let ?w1 = "snd (composeOptions vq (task_opts task @ opts) w)"
  let ?c = "operationOf (messageOf task ?opt) ?opt (now_readings w (now_count ?w1))
                 (now_readings w (Suc (now_count ?w1)))"
  have "rdb_log (snd (Enqueue vq task opts w)) = rdb_log w @ [?c]"
    by (rule Enqueue_log [OF assms(1) composeOptions_ok [OF assms(2)]])
  moreover have "op_unique ?c"
    unfolding op_unique_operationOf composeOptions_fields [OF assms(2)] assms(3)
    using assms(4) by simp
  moreover have "msg_Queue (op_msg ?c)
               = (case lastOf queue_of (task_opts task @ opts) of
                    None \<Rightarrow> DefaultQueueName | Some q \<Rightarrow> q)"
    unfolding op_msg_operationOf messageOf_simple_fields composeOptions_fields [OF assms(2)]
    by simp
  ultimately show ?thesis by blast
qed

lemma lastSched_append:
  "lastSched clk k (xs @ ys)
     = (case lastSched clk (k + length (filter isProcessIn xs)) ys of
          Some v \<Rightarrow> Some v | None \<Rightarrow> lastSched clk k xs)"
  by (induction clk k xs rule: lastSched.induct) (auto split: option.splits)

lemma firstError_append_Some:
  assumes "\<forall>y\<in>set pre. optionError vq y = None" and "optionError vq x = Some e"
  shows "firstError vq (pre @ x # post) = Some e"
  using assms by (induction pre) auto

lemma sample_queue_low: "sampleValidateQueueName ''low'' = None"
  unfolding sampleValidateQueueName_def by code_simp

lemma composeLoop_timeout_absent:
  assumes "lastOf timeout_of opts = Some 0 \<or> (lastOf timeout_of opts = None \<and> timeout res = 0)"
  shows "composeLoop vq opts res w
           = composeLoop vq (filter (\<lambda>x. timeout_of x = None) opts)
               \<lparr>retry = retry res, queue = queue res, taskID = taskID res, timeout = 0,
                deadline = deadline res, uniqueTTL = uniqueTTL res,
                processAt = processAt res, retention = retention res\<rparr> w"
  using assms
  by (induction vq opts res w rule: composeLoop.induct)
     (auto split: option.splits prod.splits)

lemma composeLoop_deadline_absent:
  assumes "lastOf deadline_of opts = Some zeroTime
           \<or> (lastOf deadline_of opts = None \<and> deadline res = zeroTime)"
  shows "composeLoop vq opts res w
           = composeLoop vq (filter (\<lambda>x. deadline_of x = None) opts)
               \<lparr>retry = retry res, queue = queue res, taskID = taskID res,
                timeout = timeout res, deadline = zeroTime, uniqueTTL = uniqueTTL res,
                processAt = processAt res, retention = retention res\<rparr> w"
  using assms
  by (induction vq opts res w rule: composeLoop.induct)
     (auto split: option.splits prod.splits)

lemma composeOptions_timeout_absent:
  assumes "lastOf timeout_of opts = Some 0"
  shows "composeOptions vq opts w = composeOptions vq (filter (\<lambda>x. timeout_of x = None) opts) w"
  unfolding composeOptions_def
  by (simp add: uuid_NewString_def time_Now_def
      composeLoop_timeout_absent [of opts, OF disjI1, OF assms])

lemma composeOptions_deadline_absent:
  assumes "lastOf deadline_of opts = Some zeroTime"
  shows "composeOptions vq opts w = composeOptions vq (filter (\<lambda>x. deadline_of x = None) opts) w"
  unfolding composeOptions_def
  by (simp add: uuid_NewString_def time_Now_def
      composeLoop_deadline_absent [of opts, OF disjI1, OF assms])

lemma Enqueue_cong_options:
  assumes "typename t1 = typename t2" and "payload t1 = payload t2"
      and "composeOptions vq (task_opts t1 @ o1) w = composeOptions vq (task_opts t2 @ o2) w"
  shows "Enqueue vq t1 o1 w = Enqueue vq t2 o2 w"
  unfolding Enqueue_def assms ..

lemma composeLoop_timeout_strip:
  "composeLoop vq opts res w
     = composeLoop vq (filter (\<lambda>x. timeout_of x = None) opts)
         \<lparr>retry = retry res, queue = queue res, taskID = taskID res,
          timeout = (case lastOf timeout_of opts of None \<Rightarrow> timeout res | Some v \<Rightarrow> v),
          deadline = deadline res, uniqueTTL = uniqueTTL res,
          processAt = processAt res, retention = retention res\<rparr> w"
  by (induction vq opts res w rule: composeLoop.induct)
     (auto split: option.splits prod.splits)

lemma composeLoop_deadline_strip:
  "composeLoop vq opts res w
     = composeLoop vq (filter (\<lambda>x. deadline_of x = None) opts)
         \<lparr>retry = retry res, queue = queue res, taskID = taskID res,
          timeout = timeout res,
          deadline = (case lastOf deadline_of opts of None \<Rightarrow> deadline res | Some v \<Rightarrow> v),
          uniqueTTL = uniqueTTL res,
          processAt = processAt res, retention = retention res\<rparr> w"
  by (induction vq opts res w rule: composeLoop.induct)
     (auto split: option.splits prod.splits)

lemma composeOptions_timeout_cong:
  assumes "filter (\<lambda>x. timeout_of x = None) o1 = filter (\<lambda>x. timeout_of x = None) o2"
      and "(case lastOf timeout_of o1 of None \<Rightarrow> 0 | Some v \<Rightarrow> v)
           = (case lastOf timeout_of o2 of None \<Rightarrow> 0 | Some v \<Rightarrow> v)"
  shows "composeOptions vq o1 w = composeOptions vq o2 w"
  unfolding composeOptions_def
  by (simp add: uuid_NewString_def time_Now_def assms
      composeLoop_timeout_strip [of vq o1] composeLoop_timeout_strip [of vq o2]
      cong: option.case_cong)

lemma composeOptions_deadline_cong:
  assumes "filter (\<lambda>x. deadline_of x = None) o1 = filter (\<lambda>x. deadline_of x = None) o2"
      and "(case lastOf deadline_of o1 of None \<Rightarrow> zeroTime | Some v \<Rightarrow> v)
           = (case lastOf deadline_of o2 of None \<Rightarrow> zeroTime | Some v \<Rightarrow> v)"
  shows "composeOptions vq o1 w = composeOptions vq o2 w"
  unfolding composeOptions_def
  by (simp add: uuid_NewString_def time_Now_def assms
      composeLoop_deadline_strip [of vq o1] composeLoop_deadline_strip [of vq o2]
      cong: option.case_cong)

lemma Enqueue_drop_zero_timeout:
  assumes "lastOf timeout_of post \<noteq> None
           \<or> lastOf timeout_of (task_opts task @ pre) = None
           \<or> lastOf timeout_of (task_opts task @ pre) = Some 0"
  shows "Enqueue vq task (pre @ Timeout 0 # post) w = Enqueue vq task (pre @ post) w"
proof (intro Enqueue_cong_options refl composeOptions_timeout_cong)
  show "filter (\<lambda>x. timeout_of x = None) (task_opts task @ pre @ Timeout 0 # post)
      = filter (\<lambda>x. timeout_of x = None) (task_opts task @ pre @ post)"
    by (simp add: Timeout_def)
  have "lastOf timeout_of (task_opts task @ pre @ Timeout 0 # post)
      = (case lastOf timeout_of post of Some v \<Rightarrow> Some v | None \<Rightarrow> Some 0)"
    by (simp add: lastOf_append Timeout_def split: option.splits)
  moreover have "lastOf timeout_of (task_opts task @ pre @ post)
      = (case lastOf timeout_of post of Some v \<Rightarrow> Some v
         | None \<Rightarrow> lastOf timeout_of (task_opts task @ pre))"
    using lastOf_append [of timeout_of "task_opts task @ pre" post] by simp
  ultimately show "(case lastOf timeout_of (task_opts task @ pre @ Timeout 0 # post) of
        None \<Rightarrow> 0 | Some v \<Rightarrow> v)
      = (case lastOf timeout_of (task_opts task @ pre @ post) of None \<Rightarrow> 0 | Some v \<Rightarrow> v)"
    using assms by (auto split: option.splits)
qed

lemma Enqueue_drop_zero_deadline:
  assumes "lastOf deadline_of post \<noteq> None
           \<or> lastOf deadline_of (task_opts task @ pre) = None
           \<or> lastOf deadline_of (task_opts task @ pre) = Some zeroTime"
  shows "Enqueue vq task (pre @ Deadline zeroTime # post) w = Enqueue vq task (pre @ post) w"
proof (intro Enqueue_cong_options refl composeOptions_deadline_cong)
  show "filter (\<lambda>x. deadline_of x = None) (task_opts task @ pre @ Deadline zeroTime # post)
      = filter (\<lambda>x. deadline_of x = None) (task_opts task @ pre @ post)"
    by (simp add: Deadline_def)
  have "lastOf deadline_of (task_opts task @ pre @ Deadline zeroTime # post)
      = (case lastOf deadline_of post of Some v \<Rightarrow> Some v | None \<Rightarrow> Some zeroTime)"
    by (simp add: lastOf_append Deadline_def split: option.splits)
  moreover have "lastOf deadline_of (task_opts task @ pre @ post)
      = (case lastOf deadline_of post of Some v \<Rightarrow> Some v
         | None \<Rightarrow> lastOf deadline_of (task_opts task @ pre))"
    using lastOf_append [of deadline_of "task_opts task @ pre" post] by simp
  ultimately show "(case lastOf deadline_of (task_opts task @ pre @ Deadline zeroTime # post) of
        None \<Rightarrow> zeroTime | Some v \<Rightarrow> v)
      = (case lastOf deadline_of (task_opts task @ pre @ post) of
           None \<Rightarrow> zeroTime | Some v \<Rightarrow> v)"
    using assms by (auto split: option.splits)
qed

lemma minuteTask_typename:
  "TrimSpace (typename (sampleTask\<lparr>task_opts := [Timeout Minute]\<rparr>)) \<noteq> []"
  using sample_typename by simp

lemma messageOf_timeout_only:
  assumes "timeout opt \<noteq> 0" and "deadline opt = zeroTime"
  shows "msg_Timeout (messageOf task opt) = Seconds_int64 (timeout opt)"
  using assms by (simp add: messageOf_def IsZero_def noTimeout_def)
lemma Enqueue_timeout_sent:
  assumes "TrimSpace (typename task) \<noteq> []"
      and "firstError vq (task_opts task @ opts) = None"
      and "lastOf deadline_of (task_opts task @ opts) = None"
      and "rdb_log w = []"
  shows "map (msg_Timeout \<circ> op_msg) (rdb_log (snd (Enqueue vq task opts w)))
           = [case lastOf timeout_of (task_opts task @ opts) of
                None \<Rightarrow> 1800
              | Some d \<Rightarrow> if d = 0 then 1800 else Seconds_int64 d]"
proof -
  let ?opt = "fst (fst (composeOptions vq (task_opts task @ opts) w))"
  obtain c where log: "rdb_log (snd (Enqueue vq task opts w)) = rdb_log w @ [c]"
    and m: "op_msg c = messageOf task ?opt"
    using Enqueue_sent_message [OF assms(1,2)] by blast
  have t: "timeout ?opt = (case lastOf timeout_of (task_opts task @ opts) of
        None \<Rightarrow> 0 | Some v \<Rightarrow> v)"
    and d: "deadline ?opt = zeroTime"
    by (simp_all add: composeOptions_fields [OF assms(2)] assms(3))
  have "msg_Timeout (messageOf task ?opt)
      = (case lastOf timeout_of (task_opts task @ opts) of
           None \<Rightarrow> 1800 | Some d \<Rightarrow> if d = 0 then 1800 else Seconds_int64 d)"
  proof (cases "timeout ?opt = 0")
    case True
    from messageOf_default_timeout(1) [OF True d, of task] True t show ?thesis
      by (simp split: option.splits)
  next
    case False
    from messageOf_timeout_only [OF False d, of task] False t show ?thesis
      by (simp split: option.splits)
  qed
  then show ?thesis
    unfolding log assms(4) by (simp add: m)
qed

subsection \<open>Claims\<close>

text \<open>
  C1. A task whose type name is empty or made only of whitespace runes (a concatenation
  of encodings from \<open>spaceRunes\<close>, possibly none; by \<open>TrimSpace_empty_iff\<close> these are
  the strings that \<^verbatim>\<open>strings.TrimSpace\<close> empties) is rejected by \<open>Enqueue\<close> with the
  validation error, and the world is returned as it was: no clock reading, no
  identifier drawn, and no operation on the backing store.
\<close>

theorem Enqueue_blank_typename:
  assumes "set es \<subseteq> set spaceRunes" and "typename task = concat es"
  shows "Enqueue vq task opts w = (Inl (errorString ''task typename cannot be empty''), w)
       \<and> rdb_log (snd (Enqueue vq task opts w)) = rdb_log w"
  using assms by (simp add: Enqueue_def TrimSpace_concat)

theorem Enqueue_blank_typename_witness:
  "set [[CHR 0x20], [CHR 0xC2, CHR 0xA0], [CHR 0x09]] \<subseteq> set spaceRunes
   \<and> typename (sampleTask\<lparr>typename := [CHR 0x20, CHR 0xC2, CHR 0xA0, CHR 0x09]\<rparr>)
       = concat [[CHR 0x20], [CHR 0xC2, CHR 0xA0], [CHR 0x09]]
   \<and> Enqueue sampleValidateQueueName
        (sampleTask\<lparr>typename := [CHR 0x20, CHR 0xC2, CHR 0xA0, CHR 0x09]\<rparr>)
        [Queue ''critical''] sampleWorld
       = (Inl (errorString ''task typename cannot be empty''), sampleWorld)
   \<and> rdb_log (snd (Enqueue sampleValidateQueueName
        (sampleTask\<lparr>typename := [CHR 0x20, CHR 0xC2, CHR 0xA0, CHR 0x09]\<rparr>)
        [Queue ''critical''] sampleWorld)) = rdb_log sampleWorld"
proof -
  have h1: "set [[CHR 0x20], [CHR 0xC2, CHR 0xA0], [CHR 0x09]] \<subseteq> set spaceRunes"
    by (simp add: spaceRunes_def)
  have h2: "typename (sampleTask\<lparr>typename := [CHR 0x20, CHR 0xC2, CHR 0xA0, CHR 0x09]\<rparr>)
       = concat [[CHR 0x20], [CHR 0xC2, CHR 0xA0], [CHR 0x09]]"
    by simp
  show ?thesis
    using h1 h2 Enqueue_blank_typename [OF h1 h2, of sampleValidateQueueName
        "[Queue ''critical'']" sampleWorld]
    by blast
qed

text \<open>
  C2. When no timeout option and no deadline option appears among the task's options
  and the options of the call, and the submission passes validation, the message handed
  to the backing store carries the default timeout of 30 minutes (1800 seconds) and the
  no-deadline sentinel (Unix time 0); the returned task info holds the same message.
\<close>

theorem Enqueue_default_timeout:
  assumes "TrimSpace (typename task) \<noteq> []"
      and "firstError vq (task_opts task @ opts) = None"
      and "\<forall>x\<in>set (task_opts task @ opts). timeout_of x = None \<and> deadline_of x = None"
  shows "\<exists>c. rdb_log (snd (Enqueue vq task opts w)) = rdb_log w @ [c]
           \<and> msg_Timeout (op_msg c) = Seconds_int64 defaultTimeout
           \<and> msg_Timeout (op_msg c) = 1800
           \<and> msg_Deadline (op_msg c) = Unix noDeadline
           \<and> msg_Deadline (op_msg c) = 0
           \<and> (\<forall>info. fst (Enqueue vq task opts w) = Inr info \<longrightarrow> info_msg info = op_msg c)"
proof -
  let ?opts = "task_opts task @ opts"
  let ?opt = "fst (fst (composeOptions vq ?opts w))"
  let ?w1 = "snd (composeOptions vq ?opts w)"
  have comp: "composeOptions vq ?opts w = ((?opt, None), ?w1)"
    using composeOptions_ok [OF assms(2)] .
  have "lastOf timeout_of ?opts = None" and "lastOf deadline_of ?opts = None"
    using assms(3) by (simp_all add: lastOf_None_iff)
  then have t: "timeout ?opt = 0" and d: "deadline ?opt = zeroTime"
    by (simp_all add: composeOptions_fields [OF assms(2)])
  let ?m = "messageOf task ?opt"
  let ?c = "operationOf ?m ?opt (now_readings w (now_count ?w1))
              (now_readings w (Suc (now_count ?w1)))"
  have m: "op_msg ?c = ?m"
    by (simp add: operationOf_def)
  have log: "rdb_log (snd (Enqueue vq task opts w)) = rdb_log w @ [?c]"
    by (simp add: Enqueue_composed [OF assms(1) comp] Let_def)
  have res: "\<forall>info. fst (Enqueue vq task opts w) = Inr info \<longrightarrow> info_msg info = op_msg ?c"
    by (simp add: Enqueue_composed [OF assms(1) comp] Let_def m resultOf_def newTaskInfo_def
        split: if_splits option.splits)
  have c1800: "Seconds_int64 defaultTimeout = 1800" and u0: "Unix noDeadline = 0"
    by (simp_all add: Seconds_int64_values noDeadline_def time_Unix_def Unix_def)
  from log res messageOf_default_timeout [OF t d, of task] m c1800 u0
  show ?thesis by (intro exI [of _ ?c]) simp
qed

theorem Enqueue_default_timeout_witness:
  "TrimSpace (typename sampleTask) \<noteq> []
   \<and> firstError sampleValidateQueueName
        (task_opts sampleTask @ [MaxRetry 3, Queue ''critical'']) = None
   \<and> list_all (\<lambda>x. timeout_of x = None \<and> deadline_of x = None)
         (task_opts sampleTask @ [MaxRetry 3, Queue ''critical''])
   \<and> (\<exists>c. rdb_log (snd (Enqueue sampleValidateQueueName sampleTask
                 [MaxRetry 3, Queue ''critical''] sampleWorld))
              = rdb_log sampleWorld @ [c]
           \<and> msg_Timeout (op_msg c) = Seconds_int64 defaultTimeout
           \<and> msg_Timeout (op_msg c) = 1800
           \<and> msg_Deadline (op_msg c) = Unix noDeadline
           \<and> msg_Deadline (op_msg c) = 0
           \<and> (\<forall>info. fst (Enqueue sampleValidateQueueName sampleTask
                 [MaxRetry 3, Queue ''critical''] sampleWorld) = Inr info
                 \<longrightarrow> info_msg info = op_msg c))"
proof -
  have h1: "TrimSpace (typename sampleTask) \<noteq> []"
    by (rule sample_typename)
  have h2: "firstError sampleValidateQueueName
        (task_opts sampleTask @ [MaxRetry 3, Queue ''critical'']) = None"
    by (simp add: sampleTask_def MaxRetry_def Queue_def sample_queue)
  have h3: "\<forall>x\<in>set (task_opts sampleTask @ [MaxRetry 3, Queue ''critical'']).
         timeout_of x = None \<and> deadline_of x = None"
    by (simp add: sampleTask_def MaxRetry_def Queue_def)
  have h3': "list_all (\<lambda>x. timeout_of x = None \<and> deadline_of x = None)
         (task_opts sampleTask @ [MaxRetry 3, Queue ''critical''])"
    using h3 by (simp add: list_all_iff)
  show ?thesis
    using h1 h2 h3' Enqueue_default_timeout [OF h1 h2 h3, of sampleWorld]
    by blast
qed

text \<open>
  C3 (as stated). The message stores the timeout as whole seconds: a timeout option of
  500 milliseconds, given together with a deadline, reaches the store as timeout 0,
  which is the no-timeout value.
\<close>

theorem Enqueue_timeout_and_deadline_counterexample:
  "lastOf timeout_of (task_opts sampleTask
       @ [Timeout 500000000, Deadline (time_Unix 1800000000 0)]) = Some 500000000
   \<and> lastOf deadline_of (task_opts sampleTask
       @ [Timeout 500000000, Deadline (time_Unix 1800000000 0)])
       = Some (time_Unix 1800000000 0)
   \<and> map (msg_Timeout \<circ> op_msg) (rdb_log (snd (Enqueue sampleValidateQueueName sampleTask
        [Timeout 500000000, Deadline (time_Unix 1800000000 0)] sampleWorld))) = [0]
   \<and> map (msg_Deadline \<circ> op_msg) (rdb_log (snd (Enqueue sampleValidateQueueName sampleTask
        [Timeout 500000000, Deadline (time_Unix 1800000000 0)] sampleWorld)))
       = [1800000000]
   \<and> Seconds_int64 noTimeout = 0
   \<and> 0 * Second \<noteq> (500000000 :: Duration)"
proof -
  let ?opts = "task_opts sampleTask @ [Timeout 500000000, Deadline (time_Unix 1800000000 0)]"
  have ok: "firstError sampleValidateQueueName ?opts = None"
    by (simp add: sampleTask_def Timeout_def Deadline_def)
  have lt: "lastOf timeout_of ?opts = Some 500000000"
    and ld: "lastOf deadline_of ?opts = Some (time_Unix 1800000000 0)"
    by (simp_all add: sampleTask_def Timeout_def Deadline_def)
  obtain c where log: "rdb_log (snd (Enqueue sampleValidateQueueName sampleTask
        [Timeout 500000000, Deadline (time_Unix 1800000000 0)] sampleWorld))
        = rdb_log sampleWorld @ [c]"
    and m: "op_msg c = messageOf sampleTask
        (fst (fst (composeOptions sampleValidateQueueName ?opts sampleWorld)))"
    using Enqueue_sent_message [OF sample_typename ok] by blast
  have e: "rdb_log sampleWorld = []"
    by (simp add: sampleWorld_def)
  have nz: "\<not> IsZero (time_Unix 1800000000 0)"
    by (simp add: IsZero_def zeroTime_def time_Unix_def Second_def)
  have T: "msg_Timeout (op_msg c) = Seconds_int64 500000000"
    and D: "msg_Deadline (op_msg c) = Unix (time_Unix 1800000000 0)"
    unfolding m composeOptions_fields [OF ok] lt ld
    using nz by (simp_all add: messageOf_def noTimeout_def)
  have v: "Unix (time_Unix 1800000000 0) = 1800000000"
    by (simp add: Unix_def time_Unix_def Second_def)
  have n: "Seconds_int64 noTimeout = 0"
    unfolding noTimeout_def by (rule Seconds_int64_values)
  have s: "0 * Second \<noteq> (500000000 :: Duration)"
    by simp
  have "map (msg_Timeout \<circ> op_msg) (rdb_log (snd (Enqueue sampleValidateQueueName sampleTask
        [Timeout 500000000, Deadline (time_Unix 1800000000 0)] sampleWorld))) = [0]"
    and "map (msg_Deadline \<circ> op_msg) (rdb_log (snd (Enqueue sampleValidateQueueName
        sampleTask [Timeout 500000000, Deadline (time_Unix 1800000000 0)] sampleWorld)))
       = [1800000000]"
    unfolding log e by (simp_all add: T D v Seconds_int64_values)
  with lt ld n s show ?thesis
    by (intro conjI)
qed

text \<open>
  C3 (amended). When the last timeout option is a non-zero duration \<open>d\<close> and the last
  deadline option is a time \<open>t\<close> other than the zero time, the message handed to the
  store carries both, each as a whole number of seconds, and neither is replaced by
  the other or by the default. The deadline is carried as the Unix seconds of \<open>t\<close>,
  unchanged when \<open>t\<close> is a whole second. The timeout is carried as
  \<^verbatim>\<open>int64(d.Seconds())\<close>: this is \<open>d\<close> truncated toward zero to whole seconds when
  the magnitude of \<open>d\<close> is below \<open>2 ^ 24\<close> seconds; for every 64-bit duration it is the
  truncated value or, the floating-point sum having rounded up, one second further
  from zero (\<open>Seconds_int64_rounds_up\<close> is such a duration); and it is \<open>d\<close> unchanged
  when \<open>d\<close> is a whole number of seconds.
\<close>

theorem Enqueue_timeout_and_deadline:
  assumes "TrimSpace (typename task) \<noteq> []"
      and "firstError vq (task_opts task @ opts) = None"
      and "lastOf timeout_of (task_opts task @ opts) = Some d"
      and "d \<noteq> 0"
      and "lastOf deadline_of (task_opts task @ opts) = Some t"
      and "\<not> IsZero t"
  shows "\<exists>c. rdb_log (snd (Enqueue vq task opts w)) = rdb_log w @ [c]
     \<and> msg_Timeout (op_msg c) = Seconds_int64 d
     \<and> msg_Deadline (op_msg c) = Unix t
     \<and> (\<bar>d\<bar> < 2 ^ 24 * Second \<longrightarrow> msg_Timeout (op_msg c) = tquo d Second)
     \<and> (minDuration \<le> d \<and> d \<le> maxDuration \<longrightarrow>
          msg_Timeout (op_msg c) = tquo d Second
          \<or> msg_Timeout (op_msg c) = tquo d Second + sgn d)
     \<and> (minDuration \<le> d \<and> d \<le> maxDuration \<and> d mod Second = 0 \<longrightarrow>
          msg_Timeout (op_msg c) * Second = d)
     \<and> (t mod Second = 0 \<longrightarrow> time_Unix (msg_Deadline (op_msg c)) 0 = t)"
proof -
  let ?opts = "task_opts task @ opts"
  obtain c where log: "rdb_log (snd (Enqueue vq task opts w)) = rdb_log w @ [c]"
    and m: "op_msg c = messageOf task (fst (fst (composeOptions vq ?opts w)))"
    using Enqueue_sent_message [OF assms(1,2)] by blast
  have T: "msg_Timeout (op_msg c) = Seconds_int64 d"
    and D: "msg_Deadline (op_msg c) = Unix t"
    unfolding m composeOptions_fields [OF assms(2)] assms(3,5)
    using assms(4,6) by (simp_all add: messageOf_def noTimeout_def)
  have T1: "\<bar>d\<bar> < 2 ^ 24 * Second \<longrightarrow> Seconds_int64 d = tquo d Second"
    by (simp add: Seconds_int64_tquo)
  have T2: "minDuration \<le> d \<and> d \<le> maxDuration \<longrightarrow>
      Seconds_int64 d = tquo d Second \<or> Seconds_int64 d = tquo d Second + sgn d"
    using Seconds_int64_tquo_or_next [of d] by blast
  have T3: "minDuration \<le> d \<and> d \<le> maxDuration \<and> d mod Second = 0 \<longrightarrow>
      Seconds_int64 d * Second = d"
    by (simp add: Seconds_int64_whole_int64)
  have D': "t mod Second = 0 \<longrightarrow> time_Unix (Unix t) 0 = t"
    by (auto simp: time_Unix_def Unix_def Second_def)
  show ?thesis
    unfolding T [symmetric] D [symmetric] using log T T1 T2 T3 D D'
    by (intro exI [of _ c]) simp
qed

theorem Enqueue_timeout_and_deadline_witness:
  "TrimSpace (typename sampleTask) \<noteq> []
   \<and> firstError sampleValidateQueueName
        (task_opts sampleTask @ [Timeout (90 * Second), Deadline (time_Unix 1800000000 0)]) = None
   \<and> lastOf timeout_of
        (task_opts sampleTask @ [Timeout (90 * Second), Deadline (time_Unix 1800000000 0)])
       = Some (90 * Second)
   \<and> 90 * Second \<noteq> 0
   \<and> lastOf deadline_of
        (task_opts sampleTask @ [Timeout (90 * Second), Deadline (time_Unix 1800000000 0)])
       = Some (time_Unix 1800000000 0)
   \<and> \<not> IsZero (time_Unix 1800000000 0)
   \<and> \<bar>90 * Second\<bar> < 2 ^ 24 * Second
   \<and> minDuration \<le> 90 * Second \<and> 90 * Second \<le> maxDuration
   \<and> (90 * Second) mod Second = 0
   \<and> time_Unix 1800000000 0 mod Second = 0
   \<and> map (msg_Timeout \<circ> op_msg) (rdb_log (snd (Enqueue sampleValidateQueueName sampleTask
        [Timeout (90 * Second), Deadline (time_Unix 1800000000 0)] sampleWorld))) = [90]
   \<and> map (\<lambda>c. msg_Timeout (op_msg c) * Second) (rdb_log (snd (Enqueue
        sampleValidateQueueName sampleTask
        [Timeout (90 * Second), Deadline (time_Unix 1800000000 0)] sampleWorld)))
       = [90 * Second]
   \<and> map (msg_Deadline \<circ> op_msg) (rdb_log (snd (Enqueue sampleValidateQueueName sampleTask
        [Timeout (90 * Second), Deadline (time_Unix 1800000000 0)] sampleWorld)))
       = [1800000000]
   \<and> map (\<lambda>c. time_Unix (msg_Deadline (op_msg c)) 0) (rdb_log (snd (Enqueue
        sampleValidateQueueName sampleTask
        [Timeout (90 * Second), Deadline (time_Unix 1800000000 0)] sampleWorld)))
       = [time_Unix 1800000000 0]"
proof -
  let ?opts = "task_opts sampleTask @ [Timeout (90 * Second), Deadline (time_Unix 1800000000 0)]"
  have h1: "TrimSpace (typename sampleTask) \<noteq> []"
    by (rule sample_typename)
  have h2: "firstError sampleValidateQueueName ?opts = None"
    by (simp add: sampleTask_def Timeout_def Deadline_def)
  have h3: "lastOf timeout_of ?opts = Some (90 * Second)"
    by (simp add: sampleTask_def Timeout_def Deadline_def)
  have h4: "90 * Second \<noteq> 0"
    by (simp add: Second_def)
  have h5: "lastOf deadline_of ?opts = Some (time_Unix 1800000000 0)"
    by (simp add: sampleTask_def Timeout_def Deadline_def)
  have h6: "\<not> IsZero (time_Unix 1800000000 0)"
    by (simp add: IsZero_def zeroTime_def time_Unix_def Second_def)
  have a1: "\<bar>90 * Second\<bar> < 2 ^ 24 * Second"
    and a2: "minDuration \<le> 90 * Second \<and> 90 * Second \<le> maxDuration"
    and a3: "(90 * Second) mod Second = 0"
    and a4: "time_Unix 1800000000 0 mod Second = 0"
    by (simp_all add: Second_def minDuration_def maxDuration_def time_Unix_def)
  from Enqueue_timeout_and_deadline [OF h1 h2 h3 h4 h5 h6, of sampleWorld]
  obtain c where log: "rdb_log (snd (Enqueue sampleValidateQueueName sampleTask
        [Timeout (90 * Second), Deadline (time_Unix 1800000000 0)] sampleWorld))
        = rdb_log sampleWorld @ [c]"
    and T: "\<bar>90 * Second\<bar> < 2 ^ 24 * Second
        \<longrightarrow> msg_Timeout (op_msg c) = tquo (90 * Second) Second"
    and T3: "minDuration \<le> 90 * Second \<and> 90 * Second \<le> maxDuration
        \<and> (90 * Second) mod Second = 0 \<longrightarrow> msg_Timeout (op_msg c) * Second = 90 * Second"
    and D: "msg_Deadline (op_msg c) = Unix (time_Unix 1800000000 0)"
    and D': "time_Unix 1800000000 0 mod Second = 0
        \<longrightarrow> time_Unix (msg_Deadline (op_msg c)) 0 = time_Unix 1800000000 0"
    by blast
  have e: "rdb_log sampleWorld = []"
    by (simp add: sampleWorld_def)
  have q: "tquo (90 * Second) Second = 90"
    by (simp add: tquo_def Second_def)
  have v: "Unix (time_Unix 1800000000 0) = 1800000000"
    by (simp add: Unix_def time_Unix_def Second_def)
  have T': "msg_Timeout (op_msg c) = 90"
    using T a1 q by simp
  have T3': "msg_Timeout (op_msg c) * Second = 90 * Second"
    using T3 a2 a3 by blast
  have D'': "time_Unix (msg_Deadline (op_msg c)) 0 = time_Unix 1800000000 0"
    using D' a4 by blast
  have r1: "map (msg_Timeout \<circ> op_msg) (rdb_log (snd (Enqueue sampleValidateQueueName
        sampleTask [Timeout (90 * Second), Deadline (time_Unix 1800000000 0)] sampleWorld)))
        = [90]"
    unfolding log e by (simp add: T')
  have r2: "map (\<lambda>c. msg_Timeout (op_msg c) * Second) (rdb_log (snd (Enqueue
        sampleValidateQueueName sampleTask
        [Timeout (90 * Second), Deadline (time_Unix 1800000000 0)] sampleWorld)))
       = [90 * Second]"
    unfolding log e using T3' by simp
  have r3: "map (msg_Deadline \<circ> op_msg) (rdb_log (snd (Enqueue sampleValidateQueueName
        sampleTask [Timeout (90 * Second), Deadline (time_Unix 1800000000 0)] sampleWorld)))
       = [1800000000]"
    unfolding log e by (simp add: D v)
  have r4: "map (\<lambda>c. time_Unix (msg_Deadline (op_msg c)) 0) (rdb_log (snd (Enqueue
        sampleValidateQueueName sampleTask
        [Timeout (90 * Second), Deadline (time_Unix 1800000000 0)] sampleWorld)))
       = [time_Unix 1800000000 0]"
    unfolding log e using D'' by simp
  from a2 have a2a: "minDuration \<le> 90 * Second" and a2b: "90 * Second \<le> maxDuration"
    by simp_all
  show ?thesis
    by (intro conjI h1 h2 h3 h4 h5 h6 a1 a2a a2b a3 a4 r1 r2 r3 r4)
qed

text \<open>
  C4. For two submissions that reach the store through a unique operation (a uniqueness
  duration above zero was requested), whatever their other options, clock readings,
  identifiers and stores: the key in each message is \<open>UniqueKey\<close> of the message's
  queue, the task's type and the task's payload; hence with the same queue and type the
  two keys are equal when the payloads are equal and differ when the payloads differ.
\<close>

theorem UniqueKey_of_triple_only:
  assumes "rdb_log (snd (Enqueue vq1 task1 opts1 w1)) = rdb_log w1 @ [c1]"
      and "rdb_log (snd (Enqueue vq2 task2 opts2 w2)) = rdb_log w2 @ [c2]"
      and "op_unique c1" and "op_unique c2"
      and "msg_Queue (op_msg c1) = msg_Queue (op_msg c2)"
      and "typename task1 = typename task2"
  shows "msg_UniqueKey (op_msg c1)
           = UniqueKey (msg_Queue (op_msg c1)) (typename task1) (payload task1)
     \<and> msg_UniqueKey (op_msg c2)
           = UniqueKey (msg_Queue (op_msg c2)) (typename task2) (payload task2)
     \<and> (payload task1 = payload task2
          \<longrightarrow> msg_UniqueKey (op_msg c1) = msg_UniqueKey (op_msg c2))
     \<and> (payload task1 \<noteq> payload task2
          \<longrightarrow> msg_UniqueKey (op_msg c1) \<noteq> msg_UniqueKey (op_msg c2))"
proof -
  have k1: "msg_UniqueKey (op_msg c1)
           = UniqueKey (msg_Queue (op_msg c1)) (typename task1) (payload task1)"
    by (rule Enqueue_unique_key [OF assms(1,3)])
  have k2: "msg_UniqueKey (op_msg c2)
           = UniqueKey (msg_Queue (op_msg c2)) (typename task2) (payload task2)"
    by (rule Enqueue_unique_key [OF assms(2,4)])
  show ?thesis
    unfolding k1 k2 using assms(5,6) by (simp add: UniqueKey_def)
qed


theorem UniqueKey_of_triple_only_witness:
  "map (msg_UniqueKey \<circ> op_msg) (rdb_log (snd (Enqueue sampleValidateQueueName sampleTask
        [Unique (10 * Minute), MaxRetry 3, Timeout (90 * Second), TaskID ''task-1'',
         Retention Hour] sampleWorld)))
   = map (msg_UniqueKey \<circ> op_msg) (rdb_log (snd (Enqueue sampleValidateQueueName sampleTask
        [Deadline (time_Unix 1800000000 0), ProcessIn Hour, Unique Hour] frozenWorld)))
   \<and> map (msg_UniqueKey \<circ> op_msg) (rdb_log (snd (Enqueue sampleValidateQueueName sampleTask
        [Unique (10 * Minute), MaxRetry 3, Timeout (90 * Second), TaskID ''task-1'',
         Retention Hour] sampleWorld)))
   \<noteq> map (msg_UniqueKey \<circ> op_msg) (rdb_log (snd (Enqueue sampleValidateQueueName
        (sampleTask\<lparr>payload := ''{}''\<rparr>)
        [Deadline (time_Unix 1800000000 0), ProcessIn Hour, Unique Hour] frozenWorld)))"
proof -
  let ?o1 = "[Unique (10 * Minute), MaxRetry 3, Timeout (90 * Second), TaskID ''task-1'',
         Retention Hour]"
  let ?o2 = "[Deadline (time_Unix 1800000000 0), ProcessIn Hour, Unique Hour]"
  let ?t3 = "sampleTask\<lparr>payload := ''{}''\<rparr>"
  have id1: "validateTaskID ''task-1'' = None"
    unfolding validateTaskID_def by code_simp
  have nb3: "TrimSpace (typename ?t3) \<noteq> []"
    using sample_typename by simp
  have pos: "0 < 10 * Minute" "0 < Hour"
    by (simp_all add: Hour_def Minute_def Second_def)
  have ok1: "firstError sampleValidateQueueName (task_opts sampleTask @ ?o1) = None"
    by (simp add: sampleTask_def Unique_def MaxRetry_def Timeout_def TaskID_def Retention_def id1)
  have u1: "lastOf unique_of (task_opts sampleTask @ ?o1) = Some (10 * Minute)"
    by (simp add: sampleTask_def Unique_def MaxRetry_def Timeout_def TaskID_def Retention_def)
  have q1: "lastOf queue_of (task_opts sampleTask @ ?o1) = None"
    by (simp add: sampleTask_def Unique_def MaxRetry_def Timeout_def TaskID_def Retention_def)
  have ok2: "firstError sampleValidateQueueName (task_opts sampleTask @ ?o2) = None"
    by (simp add: sampleTask_def Unique_def Deadline_def ProcessIn_def)
  have u2: "lastOf unique_of (task_opts sampleTask @ ?o2) = Some Hour"
    by (simp add: sampleTask_def Unique_def Deadline_def ProcessIn_def)
  have q2: "lastOf queue_of (task_opts sampleTask @ ?o2) = None"
    by (simp add: sampleTask_def Unique_def Deadline_def ProcessIn_def)
  have ok3: "firstError sampleValidateQueueName (task_opts ?t3 @ ?o2) = None"
    by (simp add: sampleTask_def Unique_def Deadline_def ProcessIn_def)
  have u3: "lastOf unique_of (task_opts ?t3 @ ?o2) = Some Hour"
    by (simp add: sampleTask_def Unique_def Deadline_def ProcessIn_def)
  have q3: "lastOf queue_of (task_opts ?t3 @ ?o2) = None"
    by (simp add: sampleTask_def Unique_def Deadline_def ProcessIn_def)
  obtain c1 where l1: "rdb_log (snd (Enqueue sampleValidateQueueName sampleTask ?o1 sampleWorld))
        = rdb_log sampleWorld @ [c1]" and un1: "op_unique c1"
    and qu1: "msg_Queue (op_msg c1) = DefaultQueueName"
    using Enqueue_unique_sent [OF sample_typename ok1 u1 pos(1), of sampleWorld]
    unfolding q1 by auto
  obtain c2 where l2: "rdb_log (snd (Enqueue sampleValidateQueueName sampleTask ?o2 frozenWorld))
        = rdb_log frozenWorld @ [c2]" and un2: "op_unique c2"
    and qu2: "msg_Queue (op_msg c2) = DefaultQueueName"
    using Enqueue_unique_sent [OF sample_typename ok2 u2 pos(2), of frozenWorld]
    unfolding q2 by auto
  obtain c3 where l3: "rdb_log (snd (Enqueue sampleValidateQueueName ?t3 ?o2 frozenWorld))
        = rdb_log frozenWorld @ [c3]" and un3: "op_unique c3"
    and qu3: "msg_Queue (op_msg c3) = DefaultQueueName"
    using Enqueue_unique_sent [OF nb3 ok3 u3 pos(2), of frozenWorld]
    unfolding q3 by auto
  have e: "rdb_log sampleWorld = []" "rdb_log frozenWorld = []"
    by (simp_all add: frozenWorld_def sampleWorld_def)
  have q12: "msg_Queue (op_msg c1) = msg_Queue (op_msg c2)"
    and q13: "msg_Queue (op_msg c1) = msg_Queue (op_msg c3)"
    by (simp_all add: qu1 qu2 qu3)
  have t13: "typename sampleTask = typename ?t3"
    by simp
  have same: "msg_UniqueKey (op_msg c1) = msg_UniqueKey (op_msg c2)"
    using UniqueKey_of_triple_only [OF l1 l2 un1 un2 q12 refl] by blast
  have "payload sampleTask \<noteq> payload ?t3"
    by (simp add: sampleTask_def)
  then have diff: "msg_UniqueKey (op_msg c1) \<noteq> msg_UniqueKey (op_msg c3)"
    using UniqueKey_of_triple_only [OF l1 l3 un1 un3 q13 t13] by blast
  show ?thesis
    unfolding l1 l2 l3 e using same diff by simp
qed

text \<open>
  C5. With \<open>now\<close> the clock reading taken by \<open>Enqueue\<close> after composition: if the
  resolved scheduled time is at or before \<open>now\<close>, the operation on the store is an
  immediate one, and the task info returned when the store accepts has state pending and
  processing time \<open>now\<close> (the scheduled time clamped); if it is after \<open>now\<close>, the
  operation is a deferred one and the task info has state scheduled and the resolved
  scheduled time.
\<close>

theorem Enqueue_routing:
  assumes "TrimSpace (typename task) \<noteq> []"
      and "composeOptions vq (task_opts task @ opts) w = ((opt, None), w1)"
      and "time_Now w1 = (now, w2)"
  shows "\<exists>c. rdb_log (snd (Enqueue vq task opts w)) = rdb_log w @ [c]
     \<and> (processAt opt \<le> now \<longrightarrow>
          op_immediate c
          \<and> (rdb_reply w (rdb_log w) c = None \<longrightarrow>
               fst (Enqueue vq task opts w)
                 = Inr \<lparr>info_msg = op_msg c, info_state = TaskStatePending,
                        info_nextProcessAt = now\<rparr>)
          \<and> (\<forall>info. fst (Enqueue vq task opts w) = Inr info \<longrightarrow>
                 info_state info = TaskStatePending \<and> info_nextProcessAt info = now))
     \<and> (now < processAt opt \<longrightarrow>
          \<not> op_immediate c
          \<and> (rdb_reply w (rdb_log w) c = None \<longrightarrow>
               fst (Enqueue vq task opts w)
                 = Inr \<lparr>info_msg = op_msg c, info_state = TaskStateScheduled,
                        info_nextProcessAt = processAt opt\<rparr>)
          \<and> (\<forall>info. fst (Enqueue vq task opts w) = Inr info \<longrightarrow>
                 info_state info = TaskStateScheduled
                 \<and> info_nextProcessAt info = processAt opt))"
proof -
  note keeps = composeOptions_keeps [OF assms(2)]
  have now: "now = now_readings w (now_count w1)"
    using assms(3) by (simp add: time_Now_def keeps)
  let ?m = "messageOf task opt"
  let ?c = "operationOf ?m opt now (now_readings w (Suc (now_count w1)))"
  have m: "op_msg ?c = ?m"
    by (simp add: operationOf_def)
  have log: "rdb_log (snd (Enqueue vq task opts w)) = rdb_log w @ [?c]"
    by (simp add: Enqueue_composed [OF assms(1,2)] Let_def now)
  have res: "fst (Enqueue vq task opts w)
      = resultOf (rdb_reply w (rdb_log w) ?c)
          (newTaskInfo ?m (if processAt opt \<le> now then TaskStatePending else TaskStateScheduled)
             (if processAt opt \<le> now then now else processAt opt))"
    by (simp add: Enqueue_composed [OF assms(1,2)] Let_def now)
  have imm: "op_immediate ?c \<longleftrightarrow> processAt opt \<le> now"
    by (simp add: operationOf_def)
  have A: "processAt opt \<le> now \<longrightarrow>
          op_immediate ?c
          \<and> (rdb_reply w (rdb_log w) ?c = None \<longrightarrow>
               fst (Enqueue vq task opts w)
                 = Inr \<lparr>info_msg = op_msg ?c, info_state = TaskStatePending,
                        info_nextProcessAt = now\<rparr>)
          \<and> (\<forall>info. fst (Enqueue vq task opts w) = Inr info \<longrightarrow>
                 info_state info = TaskStatePending \<and> info_nextProcessAt info = now)"
    unfolding res m imm
    by (auto simp: resultOf_def newTaskInfo_def errors_Is_def split: if_splits option.splits)
  have B: "now < processAt opt \<longrightarrow>
          \<not> op_immediate ?c
          \<and> (rdb_reply w (rdb_log w) ?c = None \<longrightarrow>
               fst (Enqueue vq task opts w)
                 = Inr \<lparr>info_msg = op_msg ?c, info_state = TaskStateScheduled,
                        info_nextProcessAt = processAt opt\<rparr>)
          \<and> (\<forall>info. fst (Enqueue vq task opts w) = Inr info \<longrightarrow>
                 info_state info = TaskStateScheduled
                 \<and> info_nextProcessAt info = processAt opt)"
    unfolding res m imm
    by (auto simp: resultOf_def newTaskInfo_def errors_Is_def split: if_splits option.splits)
  show ?thesis
    by (intro exI [of _ ?c] conjI log A B)
qed

theorem Enqueue_routing_witness:
  "TrimSpace (typename sampleTask) \<noteq> []
   \<and> composeOptions sampleValidateQueueName
        (task_opts sampleTask @ [ProcessIn Hour, Unique (10 * Minute)]) sampleWorld
       = ((\<lparr>retry = 25, queue = ''default'',
            taskID = ''6ba7b810-9dad-11d1-80b4-00c04fd430c8'', timeout = 0,
            deadline = zeroTime, uniqueTTL = 600000000000,
            processAt = 1700003600000001000, retention = 0\<rparr>, None),
          sampleWorld\<lparr>now_count := 2, uuid_count := 1\<rparr>)
   \<and> time_Now (sampleWorld\<lparr>now_count := 2, uuid_count := 1\<rparr>)
       = (1700000000000002000, sampleWorld\<lparr>now_count := 3, uuid_count := 1\<rparr>)
   \<and> (\<exists>info. fst (Enqueue sampleValidateQueueName sampleTask
                  [ProcessIn Hour, Unique (10 * Minute)] sampleWorld) = Inr info
            \<and> info_state info = TaskStateScheduled
            \<and> info_nextProcessAt info = 1700003600000001000)"
proof -
  have h1: "TrimSpace (typename sampleTask) \<noteq> []"
    by (rule sample_typename)
  have h2: "composeOptions sampleValidateQueueName
        (task_opts sampleTask @ [ProcessIn Hour, Unique (10 * Minute)]) sampleWorld
       = ((\<lparr>retry = 25, queue = ''default'',
            taskID = ''6ba7b810-9dad-11d1-80b4-00c04fd430c8'', timeout = 0,
            deadline = zeroTime, uniqueTTL = 600000000000,
            processAt = 1700003600000001000, retention = 0\<rparr>, None),
          sampleWorld\<lparr>now_count := 2, uuid_count := 1\<rparr>)"
    by (simp add: sampleTask_def sample_compose_scheduled)
  have h3: "time_Now (sampleWorld\<lparr>now_count := 2, uuid_count := 1\<rparr>)
       = (1700000000000002000, sampleWorld\<lparr>now_count := 3, uuid_count := 1\<rparr>)"
    by (simp add: time_Now_def sampleWorld_def Second_def)
  have r: "\<And>c. rdb_reply sampleWorld (rdb_log sampleWorld) c = None"
    by (simp add: sampleWorld_def)
  from Enqueue_routing [OF h1 h2 h3]
  have "\<exists>info. fst (Enqueue sampleValidateQueueName sampleTask
                  [ProcessIn Hour, Unique (10 * Minute)] sampleWorld) = Inr info
            \<and> info_state info = TaskStateScheduled
            \<and> info_nextProcessAt info = 1700003600000001000"
    by (auto simp: r)
  with h1 h2 h3 show ?thesis by blast
qed

text \<open>
  C6. \<open>Enqueue\<close> composes the task's options followed by the options of the call. When
  no option fails validation, every field of the resolved configuration is the value
  of the last option for that field in the combined sequence (scheduled-at and
  scheduled-in both set the scheduled time, a scheduled-in option adding its duration
  to the clock reading it takes), and a field that no option sets keeps its base
  value: retry 25, the default queue name, a fresh identifier, no timeout, no deadline,
  no uniqueness, the clock reading taken at the start of composition, retention 0. An
  option of the call therefore wins over an option of the task for the same field.
\<close>

theorem composeOptions_last_wins:
  assumes "firstError vq (task_opts task @ opts) = None"
  shows "fst (composeOptions vq (task_opts task @ opts) w) =
     (\<lparr>retry = (case lastOf retry_of (task_opts task @ opts) of None \<Rightarrow> 25 | Some v \<Rightarrow> v),
       queue = (case lastOf queue_of (task_opts task @ opts) of
                  None \<Rightarrow> DefaultQueueName | Some v \<Rightarrow> v),
       taskID = (case lastOf taskID_of (task_opts task @ opts) of
                   None \<Rightarrow> uuid_readings w (uuid_count w) | Some v \<Rightarrow> v),
       timeout = (case lastOf timeout_of (task_opts task @ opts) of None \<Rightarrow> 0 | Some v \<Rightarrow> v),
       deadline = (case lastOf deadline_of (task_opts task @ opts) of
                     None \<Rightarrow> zeroTime | Some v \<Rightarrow> v),
       uniqueTTL = (case lastOf unique_of (task_opts task @ opts) of None \<Rightarrow> 0 | Some v \<Rightarrow> v),
       processAt = (case lastSched (now_readings w) (Suc (now_count w)) (task_opts task @ opts) of
                      None \<Rightarrow> now_readings w (now_count w) | Some v \<Rightarrow> v),
       retention = (case lastOf retention_of (task_opts task @ opts) of
                      None \<Rightarrow> 0 | Some v \<Rightarrow> v)\<rparr>, None)
   \<and> lastOf f (task_opts task @ opts)
       = (case lastOf f opts of Some v \<Rightarrow> Some v | None \<Rightarrow> lastOf f (task_opts task))
   \<and> lastSched clk k (task_opts task @ opts)
       = (case lastSched clk (k + length (filter isProcessIn (task_opts task))) opts of
            Some v \<Rightarrow> Some v | None \<Rightarrow> lastSched clk k (task_opts task))
   \<and> (TrimSpace (typename task) \<noteq> [] \<longrightarrow>
        (\<exists>c. rdb_log (snd (Enqueue vq task opts w)) = rdb_log w @ [c]
           \<and> op_msg c = messageOf task (fst (fst (composeOptions vq (task_opts task @ opts) w)))
           \<and> msg_Retry (op_msg c)
               = (case lastOf retry_of (task_opts task @ opts) of None \<Rightarrow> 25 | Some v \<Rightarrow> v)
           \<and> msg_Queue (op_msg c)
               = (case lastOf queue_of (task_opts task @ opts) of
                    None \<Rightarrow> DefaultQueueName | Some v \<Rightarrow> v)))"
proof -
  let ?opts = "task_opts task @ opts"
  note fields = composeOptions_fields [OF assms, of w]
  have A: "fst (composeOptions vq ?opts w) = (fst (fst (composeOptions vq ?opts w)), None)"
    using composeOptions_ok [OF assms, of w] by (metis fst_conv)
  have B: "TrimSpace (typename task) \<noteq> [] \<longrightarrow>
        (\<exists>c. rdb_log (snd (Enqueue vq task opts w)) = rdb_log w @ [c]
           \<and> op_msg c = messageOf task (fst (fst (composeOptions vq ?opts w)))
           \<and> msg_Retry (op_msg c)
               = (case lastOf retry_of ?opts of None \<Rightarrow> 25 | Some v \<Rightarrow> v)
           \<and> msg_Queue (op_msg c)
               = (case lastOf queue_of ?opts of None \<Rightarrow> DefaultQueueName | Some v \<Rightarrow> v))"
  proof
    assume nb: "TrimSpace (typename task) \<noteq> []"
    obtain c where log: "rdb_log (snd (Enqueue vq task opts w)) = rdb_log w @ [c]"
      and m: "op_msg c = messageOf task (fst (fst (composeOptions vq ?opts w)))"
      using Enqueue_sent_message [OF nb assms] by blast
    have "msg_Retry (op_msg c)
               = (case lastOf retry_of ?opts of None \<Rightarrow> 25 | Some v \<Rightarrow> v)"
      and "msg_Queue (op_msg c)
               = (case lastOf queue_of ?opts of None \<Rightarrow> DefaultQueueName | Some v \<Rightarrow> v)"
      unfolding m messageOf_simple_fields fields by (simp_all add: defaultMaxRetry_def cong: option.case_cong)
    with log m show "\<exists>c. rdb_log (snd (Enqueue vq task opts w)) = rdb_log w @ [c]
           \<and> op_msg c = messageOf task (fst (fst (composeOptions vq ?opts w)))
           \<and> msg_Retry (op_msg c)
               = (case lastOf retry_of ?opts of None \<Rightarrow> 25 | Some v \<Rightarrow> v)
           \<and> msg_Queue (op_msg c)
               = (case lastOf queue_of ?opts of None \<Rightarrow> DefaultQueueName | Some v \<Rightarrow> v)"
      by blast
  qed
  have C: "fst (composeOptions vq ?opts w) =
     (\<lparr>retry = (case lastOf retry_of ?opts of None \<Rightarrow> 25 | Some v \<Rightarrow> v),
       queue = (case lastOf queue_of ?opts of None \<Rightarrow> DefaultQueueName | Some v \<Rightarrow> v),
       taskID = (case lastOf taskID_of ?opts of
                   None \<Rightarrow> uuid_readings w (uuid_count w) | Some v \<Rightarrow> v),
       timeout = (case lastOf timeout_of ?opts of None \<Rightarrow> 0 | Some v \<Rightarrow> v),
       deadline = (case lastOf deadline_of ?opts of None \<Rightarrow> zeroTime | Some v \<Rightarrow> v),
       uniqueTTL = (case lastOf unique_of ?opts of None \<Rightarrow> 0 | Some v \<Rightarrow> v),
       processAt = (case lastSched (now_readings w) (Suc (now_count w)) ?opts of
                      None \<Rightarrow> now_readings w (now_count w) | Some v \<Rightarrow> v),
       retention = (case lastOf retention_of ?opts of None \<Rightarrow> 0 | Some v \<Rightarrow> v)\<rparr>, None)"
    by (subst A, subst fields) (simp add: defaultMaxRetry_def cong: option.case_cong)
  show ?thesis
    by (intro conjI C B lastOf_append lastSched_append)
qed


theorem composeOptions_last_wins_witness:
  "firstError sampleValidateQueueName
     (task_opts (sampleTask\<lparr>task_opts := [MaxRetry 5, Queue ''low'',
                                          ProcessAt (time_Unix 1800000000 0)]\<rparr>)
      @ [MaxRetry 3, ProcessIn Hour, MaxRetry 7]) = None
   \<and> fst (composeOptions sampleValidateQueueName
     (task_opts (sampleTask\<lparr>task_opts := [MaxRetry 5, Queue ''low'',
                                          ProcessAt (time_Unix 1800000000 0)]\<rparr>)
      @ [MaxRetry 3, ProcessIn Hour, MaxRetry 7]) sampleWorld)
     = (\<lparr>retry = 7, queue = ''low'',
         taskID = ''6ba7b810-9dad-11d1-80b4-00c04fd430c8'', timeout = 0,
         deadline = zeroTime, uniqueTTL = 0,
         processAt = 1700003600000001000, retention = 0\<rparr>, None)"
proof -
  let ?t = "sampleTask\<lparr>task_opts := [MaxRetry 5, Queue ''low'',
                                     ProcessAt (time_Unix 1800000000 0)]\<rparr>"
  let ?o = "[MaxRetry 3, ProcessIn Hour, MaxRetry 7]"
  have ok: "firstError sampleValidateQueueName (task_opts ?t @ ?o) = None"
    by (simp add: MaxRetry_def Queue_def ProcessAt_def ProcessIn_def sample_queue_low)
  have "fst (composeOptions sampleValidateQueueName (task_opts ?t @ ?o) sampleWorld)
     = (\<lparr>retry = 7, queue = ''low'',
         taskID = ''6ba7b810-9dad-11d1-80b4-00c04fd430c8'', timeout = 0,
         deadline = zeroTime, uniqueTTL = 0,
         processAt = 1700003600000001000, retention = 0\<rparr>, None)"
    unfolding composeOptions_last_wins [OF ok, of sampleWorld, THEN conjunct1]
    by (simp add: MaxRetry_def Queue_def ProcessAt_def ProcessIn_def sampleWorld_def
        Hour_def Minute_def Second_def)
  with ok show ?thesis by blast
qed

text \<open>
  C7. When the first option that fails validation (a queue option whose name the queue
  validation rejects with \<open>e\<close>, or a task-id option that is blank after trimming) comes
  after options that all pass, \<open>composeOptions\<close> returns the zero configuration together
  with that failure, whatever follows it; the store's log is untouched, and \<open>Enqueue\<close>
  returns the same failure without any operation on the store.
\<close>

theorem composeOptions_first_failure:
  assumes "\<forall>y\<in>set pre. optionError vq y = None"
      and "(\<exists>q. x = queueOption q \<and> vq q = Some e)
           \<or> (\<exists>i. x = taskIDOption i \<and> TrimSpace i = []
                  \<and> e = errorString ''task ID cannot be empty'')"
  shows "fst (composeOptions vq (pre @ x # post) w) = (option_zero, Some e)
     \<and> rdb_log (snd (composeOptions vq (pre @ x # post) w)) = rdb_log w
     \<and> (TrimSpace (typename task) \<noteq> [] \<and> task_opts task @ opts = pre @ x # post \<longrightarrow>
          fst (Enqueue vq task opts w) = Inl e
          \<and> rdb_log (snd (Enqueue vq task opts w)) = rdb_log w)"
proof -
  have x: "optionError vq x = Some e"
    using assms(2) by (auto simp: validateTaskID_def)
  have fe: "firstError vq (pre @ x # post) = Some e"
    by (rule firstError_append_Some [OF assms(1) x])
  have "fst (composeOptions vq (pre @ x # post) w) = (option_zero, Some e)"
    using composeOptions_error [of vq "pre @ x # post" w]
          composeOptions_zero [of vq "pre @ x # post" w] fe
    by (simp add: prod_eq_iff)
  moreover have "rdb_log (snd (composeOptions vq (pre @ x # post) w)) = rdb_log w"
    using composeOptions_keeps(1) [of vq "pre @ x # post" w] by (metis prod.collapse)
  moreover have "TrimSpace (typename task) \<noteq> [] \<and> task_opts task @ opts = pre @ x # post \<longrightarrow>
          fst (Enqueue vq task opts w) = Inl e
          \<and> rdb_log (snd (Enqueue vq task opts w)) = rdb_log w"
    using Enqueue_rejected [of task vq opts e w] fe by auto
  ultimately show ?thesis by blast
qed

theorem composeOptions_first_failure_witness:
  "list_all (\<lambda>y. optionError sampleValidateQueueName y = None) [MaxRetry 3, Queue ''low'']
   \<and> TrimSpace [CHR 0x20, CHR 0x09] = []
   \<and> fst (composeOptions sampleValidateQueueName
        ([MaxRetry 3, Queue ''low''] @ TaskID [CHR 0x20, CHR 0x09] # [Queue [], MaxRetry 1])
        sampleWorld)
       = (option_zero, Some (errorString ''task ID cannot be empty''))
   \<and> fst (Enqueue sampleValidateQueueName sampleTask
        [MaxRetry 3, Queue ''low'', TaskID [CHR 0x20, CHR 0x09], Queue [], MaxRetry 1]
        sampleWorld) = Inl (errorString ''task ID cannot be empty'')
   \<and> rdb_log (snd (Enqueue sampleValidateQueueName sampleTask
        [MaxRetry 3, Queue ''low'', TaskID [CHR 0x20, CHR 0x09], Queue [], MaxRetry 1]
        sampleWorld)) = rdb_log sampleWorld"
proof -
  have h1: "\<forall>y\<in>set [MaxRetry 3, Queue ''low'']. optionError sampleValidateQueueName y = None"
    by (simp add: MaxRetry_def Queue_def sample_queue_low)
  have b: "TrimSpace [CHR 0x20, CHR 0x09] = []"
    by code_simp
  have h2: "(\<exists>q. TaskID [CHR 0x20, CHR 0x09] = queueOption q
                \<and> sampleValidateQueueName q = Some (errorString ''task ID cannot be empty''))
           \<or> (\<exists>i. TaskID [CHR 0x20, CHR 0x09] = taskIDOption i \<and> TrimSpace i = []
                  \<and> errorString ''task ID cannot be empty''
                      = errorString ''task ID cannot be empty'')"
    using b by (simp add: TaskID_def)
  have t: "TrimSpace (typename sampleTask) \<noteq> []
       \<and> task_opts sampleTask
           @ [MaxRetry 3, Queue ''low'', TaskID [CHR 0x20, CHR 0x09], Queue [], MaxRetry 1]
         = [MaxRetry 3, Queue ''low''] @ TaskID [CHR 0x20, CHR 0x09] # [Queue [], MaxRetry 1]"
    using sample_typename by (simp add: sampleTask_def)
  have h1': "list_all (\<lambda>y. optionError sampleValidateQueueName y = None)
               [MaxRetry 3, Queue ''low'']"
    using h1 by (simp add: list_all_iff)
  from composeOptions_first_failure [OF h1 h2, of "[Queue [], MaxRetry 1]" sampleWorld
      sampleTask "[MaxRetry 3, Queue ''low'', TaskID [CHR 0x20, CHR 0x09], Queue [], MaxRetry 1]"]
    t h1' b
  show ?thesis by blast
qed

text \<open>
  C8 (as stated). With a clock that advances between readings the claim fails: for
  scheduled-in one hour and uniqueness ten minutes, the guard handed to the store is
  neither the resolved scheduled time plus the uniqueness duration minus the \<open>now\<close> of
  the routing decision, nor 70 minutes.
\<close>

theorem schedule_unique_ttl_counterexample:
  "map op_ttl (rdb_log (snd (Enqueue sampleValidateQueueName sampleTask
        [ProcessIn Hour, Unique (10 * Minute)] sampleWorld))) = [Some 4199999998000]
   \<and> processAt (fst (fst (composeOptions sampleValidateQueueName
        (task_opts sampleTask @ [ProcessIn Hour, Unique (10 * Minute)]) sampleWorld)))
       + 10 * Minute
       - fst (time_Now (snd (composeOptions sampleValidateQueueName
        (task_opts sampleTask @ [ProcessIn Hour, Unique (10 * Minute)]) sampleWorld)))
      = 4199999999000
   \<and> 70 * Minute = 4200000000000
   \<and> map op_ttl (rdb_log (snd (Enqueue sampleValidateQueueName sampleTask
        [ProcessIn Hour, Unique (10 * Minute)] sampleWorld)))
      \<noteq> [Some (processAt (fst (fst (composeOptions sampleValidateQueueName
        (task_opts sampleTask @ [ProcessIn Hour, Unique (10 * Minute)]) sampleWorld)))
       + 10 * Minute
       - fst (time_Now (snd (composeOptions sampleValidateQueueName
        (task_opts sampleTask @ [ProcessIn Hour, Unique (10 * Minute)]) sampleWorld))))]
   \<and> map op_ttl (rdb_log (snd (Enqueue sampleValidateQueueName sampleTask
        [ProcessIn Hour, Unique (10 * Minute)] sampleWorld))) \<noteq> [Some (70 * Minute)]"
proof -
  let ?X = "composeOptions sampleValidateQueueName
        (task_opts sampleTask @ [ProcessIn Hour, Unique (10 * Minute)]) sampleWorld"
  have L: "map op_ttl (rdb_log (snd (Enqueue sampleValidateQueueName sampleTask
        [ProcessIn Hour, Unique (10 * Minute)] sampleWorld))) = [Some 4199999998000]"
    by (simp add: sample_Enqueue_scheduled_log)
  have X: "?X = ((\<lparr>retry = 25, queue = ''default'',
            taskID = ''6ba7b810-9dad-11d1-80b4-00c04fd430c8'', timeout = 0,
            deadline = zeroTime, uniqueTTL = 600000000000,
            processAt = 1700003600000001000, retention = 0\<rparr>, None),
          sampleWorld\<lparr>now_count := 2, uuid_count := 1\<rparr>)"
    by (simp add: sampleTask_def sample_compose_scheduled)
  have N: "fst (time_Now (snd ?X)) = 1700000000000002000"
    unfolding X by (simp add: time_Now_def sampleWorld_def Second_def)
  have P: "processAt (fst (fst ?X)) = 1700003600000001000"
    unfolding X by simp
  have M: "10 * Minute = 600000000000" "70 * Minute = 4200000000000"
    by (simp_all add: Minute_def Second_def)
  show ?thesis
    unfolding L N P by (simp add: M)
qed

text \<open>
  C8 (amended). On the deferred path with a uniqueness duration above zero, the guard
  handed to the store's schedule-unique operation is the resolved scheduled time plus
  the uniqueness duration minus the clock reading \<open>now'\<close> that \<^verbatim>\<open>schedule\<close> takes
  after the routing decision, saturated to the range of a duration. It is the value
  the claim gives when that difference is in range and the clock has not advanced
  since the routing decision.
\<close>

theorem schedule_unique_ttl:
  assumes "TrimSpace (typename task) \<noteq> []"
      and "composeOptions vq (task_opts task @ opts) w = ((opt, None), w1)"
      and "time_Now w1 = (now, w2)"
      and "time_Now w2 = (now', w3)"
      and "now < processAt opt"
      and "0 < uniqueTTL opt"
  shows "\<exists>m ttl. rdb_log (snd (Enqueue vq task opts w))
                   = rdb_log w @ [rdb_ScheduleUnique m (processAt opt) ttl]
     \<and> ttl = time_Sub (time_Add (processAt opt) (uniqueTTL opt)) now'
     \<and> (minDuration \<le> processAt opt + uniqueTTL opt - now'
          \<and> processAt opt + uniqueTTL opt - now' \<le> maxDuration
          \<longrightarrow> ttl = processAt opt + uniqueTTL opt - now')
     \<and> (minDuration \<le> processAt opt + uniqueTTL opt - now'
          \<and> processAt opt + uniqueTTL opt - now' \<le> maxDuration \<and> now' = now
          \<longrightarrow> ttl = processAt opt + uniqueTTL opt - now)"
proof -
  note keeps = composeOptions_keeps [OF assms(2)]
  have now: "now = now_readings w (now_count w1)"
    and w2: "w2 = w1\<lparr>now_count := Suc (now_count w1)\<rparr>"
    using assms(3) by (auto simp: time_Now_def keeps)
  have now': "now' = now_readings w (Suc (now_count w1))"
    using assms(4) by (simp add: time_Now_def w2 keeps)
  let ?ttl = "time_Sub (time_Add (processAt opt) (uniqueTTL opt)) now'"
  have "rdb_log (snd (Enqueue vq task opts w))
      = rdb_log w @ [rdb_ScheduleUnique (messageOf task opt) (processAt opt) ?ttl]"
    using assms(5,6) unfolding Enqueue_log [OF assms(1,2)]
    by (simp add: operationOf_def now now')
  moreover have "minDuration \<le> processAt opt + uniqueTTL opt - now'
          \<and> processAt opt + uniqueTTL opt - now' \<le> maxDuration
          \<longrightarrow> ?ttl = processAt opt + uniqueTTL opt - now'"
    by (simp add: time_Sub_def time_Add_def Let_def)
  ultimately show ?thesis by blast
qed

theorem schedule_unique_ttl_witness:
  "TrimSpace (typename sampleTask) \<noteq> []
   \<and> firstError sampleValidateQueueName
        (task_opts sampleTask @ [ProcessIn Hour, Unique (10 * Minute)]) = None
   \<and> map op_ttl (rdb_log (snd (Enqueue sampleValidateQueueName sampleTask
        [ProcessIn Hour, Unique (10 * Minute)] frozenWorld))) = [Some (70 * Minute)]"
proof -
  let ?opts = "task_opts sampleTask @ [ProcessIn Hour, Unique (10 * Minute)]"
  let ?X = "composeOptions sampleValidateQueueName ?opts frozenWorld"
  have h1: "TrimSpace (typename sampleTask) \<noteq> []"
    by (rule sample_typename)
  have ok: "firstError sampleValidateQueueName ?opts = None"
    by (simp add: sampleTask_def ProcessIn_def Unique_def)
  have h2: "?X = ((fst (fst ?X), None), snd ?X)"
    by (rule composeOptions_ok [OF ok])
  have f: "fst (fst ?X) = \<lparr>retry = 25, queue = ''default'',
            taskID = ''6ba7b810-9dad-11d1-80b4-00c04fd430c8'', timeout = 0,
            deadline = zeroTime, uniqueTTL = 600000000000,
            processAt = 1700003600000000000, retention = 0\<rparr>"
    by (simp add: composeOptions_def uuid_NewString_def time_Now_def time_Add_def
      frozenWorld_def sampleWorld_def sampleTask_def ProcessIn_def Unique_def
      defaultMaxRetry_def DefaultQueueName_def Hour_def Minute_def Second_def)
  have rd: "now_readings (snd ?X) = (\<lambda>n. 1700000000000000000)"
    using composeOptions_keeps(3) [OF h2] by (simp add: frozenWorld_def Second_def)
  have h3: "time_Now (snd ?X) = (1700000000000000000, snd (time_Now (snd ?X)))"
    by (simp add: time_Now_def rd)
  have h4: "time_Now (snd (time_Now (snd ?X)))
              = (1700000000000000000, snd (time_Now (snd (time_Now (snd ?X)))))"
    by (simp add: time_Now_def rd)
  have h5: "1700000000000000000 < processAt (fst (fst ?X))"
    by (simp add: f)
  have h6: "0 < uniqueTTL (fst (fst ?X))"
    by (simp add: f)
  from schedule_unique_ttl [OF h1 h2 h3 h4 h5 h6]
  obtain m ttl where
    log: "rdb_log (snd (Enqueue sampleValidateQueueName sampleTask
            [ProcessIn Hour, Unique (10 * Minute)] frozenWorld))
          = rdb_log frozenWorld @ [rdb_ScheduleUnique m (processAt (fst (fst ?X))) ttl]"
    and ttl: "ttl = time_Sub (time_Add (processAt (fst (fst ?X))) (uniqueTTL (fst (fst ?X))))
                      1700000000000000000"
    by blast
  have "ttl = 70 * Minute"
    unfolding ttl f
    by (simp add: time_Sub_def time_Add_def maxDuration_def minDuration_def
        Minute_def Second_def)
  moreover have "rdb_log frozenWorld = []"
    by (simp add: frozenWorld_def sampleWorld_def)
  ultimately have "map op_ttl (rdb_log (snd (Enqueue sampleValidateQueueName sampleTask
        [ProcessIn Hour, Unique (10 * Minute)] frozenWorld))) = [Some (70 * Minute)]"
    by (simp add: log)
  with h1 ok show ?thesis by blast
qed

text \<open>
  C9. After a successful composition \<open>Enqueue\<close> performs one operation on the store.
  If the store's answer is, or wraps, the internal duplicate sentinel, \<open>Enqueue\<close>
  returns an error wrapping the public \<open>ErrDuplicateTask\<close>; if it is, or wraps, the
  internal identifier-conflict sentinel, an error wrapping the public
  \<open>ErrTaskIDConflict\<close>; any other error of the store is returned as it is. The two
  public errors are distinguishable by \<^verbatim>\<open>errors.Is\<close>.
\<close>

theorem Enqueue_error_mapping:
  assumes "TrimSpace (typename task) \<noteq> []"
      and "composeOptions vq (task_opts task @ opts) w = ((opt, None), w1)"
  shows "\<exists>c. rdb_log (snd (Enqueue vq task opts w)) = rdb_log w @ [c]
     \<and> (errors_Is (rdb_reply w (rdb_log w) c) errors_ErrDuplicateTask \<longrightarrow>
          fst (Enqueue vq task opts w) = Inl (Errorf_w ErrDuplicateTask))
     \<and> (errors_Is (rdb_reply w (rdb_log w) c) errors_ErrTaskIdConflict \<longrightarrow>
          fst (Enqueue vq task opts w) = Inl (Errorf_w ErrTaskIDConflict))
     \<and> (\<forall>e. rdb_reply w (rdb_log w) c = Some e
              \<and> \<not> chain_Is e errors_ErrDuplicateTask
              \<and> \<not> chain_Is e errors_ErrTaskIdConflict \<longrightarrow>
          fst (Enqueue vq task opts w) = Inl e)
     \<and> chain_Is (Errorf_w ErrDuplicateTask) ErrDuplicateTask
     \<and> chain_Is (Errorf_w ErrTaskIDConflict) ErrTaskIDConflict
     \<and> \<not> chain_Is (Errorf_w ErrDuplicateTask) ErrTaskIDConflict
     \<and> \<not> chain_Is (Errorf_w ErrTaskIDConflict) ErrDuplicateTask"
proof -
  let ?m = "messageOf task opt"
  let ?c = "operationOf ?m opt (now_readings w (now_count w1))
              (now_readings w (Suc (now_count w1)))"
  let ?r = "rdb_reply w (rdb_log w) ?c"
  have log: "rdb_log (snd (Enqueue vq task opts w)) = rdb_log w @ [?c]"
    by (simp add: Enqueue_composed [OF assms] Let_def)
  define info where "info = newTaskInfo ?m
      (if processAt opt \<le> now_readings w (now_count w1)
       then TaskStatePending else TaskStateScheduled)
      (if processAt opt \<le> now_readings w (now_count w1)
       then now_readings w (now_count w1) else processAt opt)"
  have res: "fst (Enqueue vq task opts w) = resultOf ?r info"
    unfolding info_def by (simp add: Enqueue_composed [OF assms] Let_def)
  have A: "errors_Is ?r errors_ErrDuplicateTask \<longrightarrow>
          fst (Enqueue vq task opts w) = Inl (Errorf_w ErrDuplicateTask)"
    by (simp add: res resultOf_def)
  have B: "errors_Is ?r errors_ErrTaskIdConflict \<longrightarrow>
          fst (Enqueue vq task opts w) = Inl (Errorf_w ErrTaskIDConflict)"
    using chain_Is_exclusive
    by (auto simp: res resultOf_def errors_Is_def split: option.splits)
  have C: "\<forall>e. ?r = Some e
              \<and> \<not> chain_Is e errors_ErrDuplicateTask
              \<and> \<not> chain_Is e errors_ErrTaskIdConflict \<longrightarrow>
          fst (Enqueue vq task opts w) = Inl e"
    by (auto simp: res resultOf_def errors_Is_def)
  have D: "chain_Is (Errorf_w ErrDuplicateTask) ErrDuplicateTask"
    "chain_Is (Errorf_w ErrTaskIDConflict) ErrTaskIDConflict"
    "\<not> chain_Is (Errorf_w ErrDuplicateTask) ErrTaskIDConflict"
    "\<not> chain_Is (Errorf_w ErrTaskIDConflict) ErrDuplicateTask"
    by (simp_all add: Errorf_w_def)
  show ?thesis
    by (intro exI [of _ ?c] conjI log A B C D)
qed

theorem Enqueue_error_mapping_witness:
  "TrimSpace (typename sampleTask) \<noteq> []
   \<and> firstError sampleValidateQueueName (task_opts sampleTask @ [Unique (10 * Minute)]) = None
   \<and> fst (Enqueue sampleValidateQueueName sampleTask [Unique (10 * Minute)] duplicateWorld)
       = Inl (wrapError ''task already exists'' ErrDuplicateTask)"
proof -
  have h1: "TrimSpace (typename sampleTask) \<noteq> []"
    by (rule sample_typename)
  have ok: "firstError sampleValidateQueueName
              (task_opts sampleTask @ [Unique (10 * Minute)]) = None"
    by (simp add: sampleTask_def Unique_def)
  have r: "\<And>c. rdb_reply duplicateWorld (rdb_log duplicateWorld) c
              = Some (wrapError ''rdb.EnqueueUnique'' errors_ErrDuplicateTask)"
    by (simp add: duplicateWorld_def)
  from Enqueue_error_mapping [OF h1 composeOptions_ok [OF ok], of duplicateWorld]
  have "fst (Enqueue sampleValidateQueueName sampleTask [Unique (10 * Minute)] duplicateWorld)
       = Inl (Errorf_w ErrDuplicateTask)"
    by (auto simp: r errors_Is_def)
  with h1 ok show ?thesis by (simp add: Errorf_w_def)
qed

text \<open>
  C10 (as stated). A zero timeout given by the caller is not the same as no timeout
  option given by the caller when a non-zero timeout was set before it. With the
  caller's options \<open>[Timeout Minute, Timeout 0]\<close> the message carries the default of
  1800 seconds, and with \<open>[Timeout Minute]\<close> it carries 60 seconds; the same holds
  when the earlier option is attached to the task and the caller gives \<open>[Timeout 0]\<close>
  or nothing.
\<close>

theorem zero_timeout_or_deadline_as_absent_counterexample:
  "map (msg_Timeout \<circ> op_msg) (rdb_log (snd (Enqueue sampleValidateQueueName sampleTask
        [Timeout Minute, Timeout 0] sampleWorld))) = [1800]
   \<and> map (msg_Timeout \<circ> op_msg) (rdb_log (snd (Enqueue sampleValidateQueueName sampleTask
        [Timeout Minute] sampleWorld))) = [60]
   \<and> map (msg_Timeout \<circ> op_msg) (rdb_log (snd (Enqueue sampleValidateQueueName
        (sampleTask\<lparr>task_opts := [Timeout Minute]\<rparr>) [Timeout 0] sampleWorld))) = [1800]
   \<and> map (msg_Timeout \<circ> op_msg) (rdb_log (snd (Enqueue sampleValidateQueueName
        (sampleTask\<lparr>task_opts := [Timeout Minute]\<rparr>) [] sampleWorld))) = [60]"
proof -
  have e: "rdb_log sampleWorld = []"
    by (simp add: sampleWorld_def)
  have nz: "Minute \<noteq> 0"
    by (simp add: Minute_def Second_def)
  have 1: "map (msg_Timeout \<circ> op_msg) (rdb_log (snd (Enqueue sampleValidateQueueName
        sampleTask [Timeout Minute, Timeout 0] sampleWorld))) = [1800]"
    by (subst Enqueue_timeout_sent [OF sample_typename _ _ e])
       (simp_all add: sampleTask_def Timeout_def)
  have 2: "map (msg_Timeout \<circ> op_msg) (rdb_log (snd (Enqueue sampleValidateQueueName
        sampleTask [Timeout Minute] sampleWorld))) = [60]"
    by (subst Enqueue_timeout_sent [OF sample_typename _ _ e])
       (simp_all add: sampleTask_def Timeout_def nz Seconds_int64_values)
  have 3: "map (msg_Timeout \<circ> op_msg) (rdb_log (snd (Enqueue sampleValidateQueueName
        (sampleTask\<lparr>task_opts := [Timeout Minute]\<rparr>) [Timeout 0] sampleWorld))) = [1800]"
    by (subst Enqueue_timeout_sent [OF minuteTask_typename _ _ e])
       (simp_all add: Timeout_def)
  have 4: "map (msg_Timeout \<circ> op_msg) (rdb_log (snd (Enqueue sampleValidateQueueName
        (sampleTask\<lparr>task_opts := [Timeout Minute]\<rparr>) [] sampleWorld))) = [60]"
    by (subst Enqueue_timeout_sent [OF minuteTask_typename _ _ e])
       (simp_all add: Timeout_def nz Seconds_int64_values)
  show ?thesis
    by (intro conjI 1 2 3 4)
qed

text \<open>
  C10 (amended). A timeout option of zero duration given by the caller can be dropped
  from the call without any change to what \<open>Enqueue\<close> returns and does, provided that
  another timeout option follows it, or that no timeout option or a zero one is in
  effect before it (among the task's own options and the earlier options of the call);
  likewise for a deadline option equal to the zero time. Otherwise it resets the value
  to unset: whenever the last timeout option is the zero duration, \<open>Enqueue\<close> behaves
  exactly as for the same submission with every timeout option removed, the task's
  included, and likewise for a last deadline option equal to the zero time. In
  particular, with a zero timeout last and no deadline option the message carries the
  default timeout of 1800 seconds, not the no-timeout value.
\<close>

theorem zero_timeout_or_deadline_as_absent:
  "(lastOf timeout_of post \<noteq> None
      \<or> lastOf timeout_of (task_opts task @ pre) = None
      \<or> lastOf timeout_of (task_opts task @ pre) = Some 0 \<longrightarrow>
      Enqueue vq task (pre @ Timeout 0 # post) w = Enqueue vq task (pre @ post) w)
   \<and> (lastOf deadline_of post \<noteq> None
      \<or> lastOf deadline_of (task_opts task @ pre) = None
      \<or> lastOf deadline_of (task_opts task @ pre) = Some zeroTime \<longrightarrow>
      Enqueue vq task (pre @ Deadline zeroTime # post) w = Enqueue vq task (pre @ post) w)
   \<and> (lastOf timeout_of (task_opts task @ opts) = Some 0 \<longrightarrow>
      Enqueue vq task opts w
        = Enqueue vq (task\<lparr>task_opts := filter (\<lambda>x. timeout_of x = None) (task_opts task)\<rparr>)
            (filter (\<lambda>x. timeout_of x = None) opts) w)
   \<and> (lastOf deadline_of (task_opts task @ opts) = Some zeroTime \<longrightarrow>
      Enqueue vq task opts w
        = Enqueue vq (task\<lparr>task_opts := filter (\<lambda>x. deadline_of x = None) (task_opts task)\<rparr>)
            (filter (\<lambda>x. deadline_of x = None) opts) w)
   \<and> (TrimSpace (typename task) \<noteq> [] \<and> firstError vq (task_opts task @ opts) = None
        \<and> lastOf timeout_of (task_opts task @ opts) = Some 0
        \<and> (\<forall>x\<in>set (task_opts task @ opts). deadline_of x = None) \<longrightarrow>
        (\<exists>c. rdb_log (snd (Enqueue vq task opts w)) = rdb_log w @ [c]
            \<and> msg_Timeout (op_msg c) = 1800 \<and> msg_Deadline (op_msg c) = 0))"
proof -
  have T: "lastOf timeout_of post \<noteq> None
      \<or> lastOf timeout_of (task_opts task @ pre) = None
      \<or> lastOf timeout_of (task_opts task @ pre) = Some 0 \<longrightarrow>
      Enqueue vq task (pre @ Timeout 0 # post) w = Enqueue vq task (pre @ post) w"
    using Enqueue_drop_zero_timeout [of post task pre vq w] by blast
  have D: "lastOf deadline_of post \<noteq> None
      \<or> lastOf deadline_of (task_opts task @ pre) = None
      \<or> lastOf deadline_of (task_opts task @ pre) = Some zeroTime \<longrightarrow>
      Enqueue vq task (pre @ Deadline zeroTime # post) w = Enqueue vq task (pre @ post) w"
    using Enqueue_drop_zero_deadline [of post task pre vq w] by blast
  have A: "lastOf timeout_of (task_opts task @ opts) = Some 0 \<longrightarrow>
      Enqueue vq task opts w
        = Enqueue vq (task\<lparr>task_opts := filter (\<lambda>x. timeout_of x = None) (task_opts task)\<rparr>)
            (filter (\<lambda>x. timeout_of x = None) opts) w"
  proof
    assume "lastOf timeout_of (task_opts task @ opts) = Some 0"
    from composeOptions_timeout_absent [OF this, of vq w]
    show "Enqueue vq task opts w
        = Enqueue vq (task\<lparr>task_opts := filter (\<lambda>x. timeout_of x = None) (task_opts task)\<rparr>)
            (filter (\<lambda>x. timeout_of x = None) opts) w"
      by (intro Enqueue_cong_options) simp_all
  qed
  have B: "lastOf deadline_of (task_opts task @ opts) = Some zeroTime \<longrightarrow>
      Enqueue vq task opts w
        = Enqueue vq (task\<lparr>task_opts := filter (\<lambda>x. deadline_of x = None) (task_opts task)\<rparr>)
            (filter (\<lambda>x. deadline_of x = None) opts) w"
  proof
    assume "lastOf deadline_of (task_opts task @ opts) = Some zeroTime"
    from composeOptions_deadline_absent [OF this, of vq w]
    show "Enqueue vq task opts w
        = Enqueue vq (task\<lparr>task_opts := filter (\<lambda>x. deadline_of x = None) (task_opts task)\<rparr>)
            (filter (\<lambda>x. deadline_of x = None) opts) w"
      by (intro Enqueue_cong_options) simp_all
  qed
  have C: "TrimSpace (typename task) \<noteq> [] \<and> firstError vq (task_opts task @ opts) = None
        \<and> lastOf timeout_of (task_opts task @ opts) = Some 0
        \<and> (\<forall>x\<in>set (task_opts task @ opts). deadline_of x = None) \<longrightarrow>
        (\<exists>c. rdb_log (snd (Enqueue vq task opts w)) = rdb_log w @ [c]
            \<and> msg_Timeout (op_msg c) = 1800 \<and> msg_Deadline (op_msg c) = 0)"
  proof
    assume h: "TrimSpace (typename task) \<noteq> [] \<and> firstError vq (task_opts task @ opts) = None
        \<and> lastOf timeout_of (task_opts task @ opts) = Some 0
        \<and> (\<forall>x\<in>set (task_opts task @ opts). deadline_of x = None)"
    then have nb: "TrimSpace (typename task) \<noteq> []"
      and ok: "firstError vq (task_opts task @ opts) = None"
      and lt: "lastOf timeout_of (task_opts task @ opts) = Some 0"
      and ld: "lastOf deadline_of (task_opts task @ opts) = None"
      by (simp_all add: lastOf_None_iff)
    let ?opt = "fst (fst (composeOptions vq (task_opts task @ opts) w))"
    obtain c where log: "rdb_log (snd (Enqueue vq task opts w)) = rdb_log w @ [c]"
      and m: "op_msg c = messageOf task ?opt"
      using Enqueue_sent_message [OF nb ok] by blast
    have t: "timeout ?opt = 0" and d: "deadline ?opt = zeroTime"
      by (simp_all add: composeOptions_fields [OF ok] lt ld)
    from log m messageOf_default_timeout [OF t d, of task]
    show "\<exists>c. rdb_log (snd (Enqueue vq task opts w)) = rdb_log w @ [c]
            \<and> msg_Timeout (op_msg c) = 1800 \<and> msg_Deadline (op_msg c) = 0"
      by auto
  qed
  show ?thesis
    by (intro conjI T D A B C)
qed

theorem zero_timeout_or_deadline_as_absent_witness:
  "lastOf timeout_of (task_opts sampleTask @ [MaxRetry 3]) = None
   \<and> Enqueue sampleValidateQueueName sampleTask
        ([MaxRetry 3] @ Timeout 0 # [Queue ''critical'']) sampleWorld
       = Enqueue sampleValidateQueueName sampleTask
           ([MaxRetry 3] @ [Queue ''critical'']) sampleWorld
   \<and> lastOf timeout_of (task_opts sampleTask @ [Timeout 0]) = Some 0
   \<and> Enqueue sampleValidateQueueName sampleTask [Timeout 0] sampleWorld
       = Enqueue sampleValidateQueueName sampleTask [] sampleWorld
   \<and> map (msg_Timeout \<circ> op_msg) (rdb_log (snd (Enqueue sampleValidateQueueName sampleTask
        [Timeout 0] sampleWorld))) = [1800]"
proof -
  have lt: "lastOf timeout_of (task_opts sampleTask @ [Timeout 0]) = Some 0"
    by (simp add: sampleTask_def Timeout_def)
  have ln: "lastOf timeout_of (task_opts sampleTask @ [MaxRetry 3]) = None"
    by (simp add: sampleTask_def MaxRetry_def)
  have ok: "firstError sampleValidateQueueName (task_opts sampleTask @ [Timeout 0]) = None"
    by (simp add: sampleTask_def Timeout_def)
  have nd: "\<forall>x\<in>set (task_opts sampleTask @ [Timeout 0]). deadline_of x = None"
    by (simp add: sampleTask_def Timeout_def)
  note inst = zero_timeout_or_deadline_as_absent [where task = sampleTask
      and opts = "[Timeout 0]" and pre = "[MaxRetry 3]" and post = "[Queue ''critical'']"
      and vq = sampleValidateQueueName and w = sampleWorld]
  have t: "sampleTask\<lparr>task_opts := filter (\<lambda>x. timeout_of x = None) (task_opts sampleTask)\<rparr>
             = sampleTask"
    by (simp add: sampleTask_def)
  have f: "filter (\<lambda>x. timeout_of x = None) [Timeout 0] = []"
    by (simp add: Timeout_def)
  have P: "Enqueue sampleValidateQueueName sampleTask
        ([MaxRetry 3] @ Timeout 0 # [Queue ''critical'']) sampleWorld
       = Enqueue sampleValidateQueueName sampleTask
           ([MaxRetry 3] @ [Queue ''critical'']) sampleWorld"
    using inst ln by blast
  have E: "Enqueue sampleValidateQueueName sampleTask [Timeout 0] sampleWorld
       = Enqueue sampleValidateQueueName sampleTask [] sampleWorld"
    using inst lt unfolding t f by blast
  obtain c where log: "rdb_log (snd (Enqueue sampleValidateQueueName sampleTask
        [Timeout 0] sampleWorld)) = rdb_log sampleWorld @ [c]"
    and T: "msg_Timeout (op_msg c) = 1800"
    using inst sample_typename ok lt nd by blast
  have e: "rdb_log sampleWorld = []"
    by (simp add: sampleWorld_def)
  have R: "map (msg_Timeout \<circ> op_msg) (rdb_log (snd (Enqueue sampleValidateQueueName
        sampleTask [Timeout 0] sampleWorld))) = [1800]"
    unfolding log e by (simp add: T)
  show ?thesis
    by (intro conjI ln P lt E R)
qed

end
